theory Spec2Isabelle
  imports Complex_Main "HOL-Library.Word" "HOL-Library.Finite_Map"
begin

section \<open>Numbers\<close>

text \<open>
  Go's \<open>float64\<close>. The special values are kept apart, because the code divides by a
  descriptor limit that may be zero and compares the result; a finite value is the
  exact real number, so rounding (and overflow of a finite sum to an infinity) is
  abstracted. Signed zeros are not distinguished: every divisor of the code is the
  conversion of an unsigned integer, whose zero is positive.
\<close>

datatype f64 = Num real | PInf | NInf | NaN

fun f64_neg :: "f64 \<Rightarrow> f64" where
  "f64_neg (Num a) = Num (- a)"
| "f64_neg PInf = NInf"
| "f64_neg NInf = PInf"
| "f64_neg NaN = NaN"

fun f64_add :: "f64 \<Rightarrow> f64 \<Rightarrow> f64" where
  "f64_add NaN y = NaN"
| "f64_add x NaN = NaN"
| "f64_add PInf NInf = NaN"
| "f64_add NInf PInf = NaN"
| "f64_add PInf y = PInf"
| "f64_add x PInf = PInf"
| "f64_add NInf y = NInf"
| "f64_add x NInf = NInf"
| "f64_add (Num a) (Num b) = Num (a + b)"

definition f64_sub :: "f64 \<Rightarrow> f64 \<Rightarrow> f64" where
  "f64_sub x y = f64_add x (f64_neg y)"

text \<open>\<open>x < y\<close> on \<open>float64\<close>: false as soon as one side is not a number.\<close>

fun f64_less :: "f64 \<Rightarrow> f64 \<Rightarrow> bool" where
  "f64_less NaN y = False"
| "f64_less x NaN = False"
| "f64_less (Num a) (Num b) = (a < b)"
| "f64_less x NInf = False"
| "f64_less PInf y = False"
| "f64_less NInf y = True"
| "f64_less x PInf = True"

text \<open>\<open>x <= y\<close> on \<open>float64\<close>.\<close>

definition f64_le :: "f64 \<Rightarrow> f64 \<Rightarrow> bool" where
  "f64_le x y = (x \<noteq> NaN \<and> y \<noteq> NaN \<and> \<not> f64_less y x)"

text \<open>
  \<open>x / y\<close> on \<open>float64\<close>: a non-zero number over zero is an infinity of its sign,
  zero over zero and infinity over infinity are not numbers.
\<close>

fun f64_div :: "f64 \<Rightarrow> f64 \<Rightarrow> f64" where
  "f64_div NaN y = NaN"
| "f64_div x NaN = NaN"
| "f64_div (Num a) (Num b) =
     (if b = 0 then (if a = 0 then NaN else if 0 < a then PInf else NInf)
      else Num (a / b))"
| "f64_div (Num a) y = Num 0"
| "f64_div PInf (Num b) = (if b < 0 then NInf else PInf)"
| "f64_div NInf (Num b) = (if b < 0 then PInf else NInf)"
| "f64_div x y = NaN"

type_synonym uint64 = "64 word"

type_synonym int64 = "64 word"

text \<open>\<open>float64(x)\<close> of a signed and of an unsigned 64-bit integer.\<close>

definition float64_of_int64 :: "int64 \<Rightarrow> f64" where
  "float64_of_int64 x = Num (real_of_int (sint x))"

definition float64_of_uint64 :: "uint64 \<Rightarrow> f64" where
  "float64_of_uint64 x = Num (real (unat x))"

text \<open>\<open>time.Time\<close> as a count of ticks; the zero value of the type is 0.\<close>

type_synonym time = nat

definition zeroTime :: time where
  "zeroTime = 0"

section \<open>The snapshot model\<close>

text \<open>
  Modelled from the spec: \<open>ProcId\<close>, \<open>ProcStatic\<close>, \<open>ProcMetrics\<close>, \<open>ProcInfo\<close> and
  \<open>ProcIdInfo\<close> are declared outside the given sources. An identity is a pid with a
  start time; the static attributes are the name and the command line that
  \<open>GetName\<close> and \<open>GetCmdLine\<close> read; the metrics are the counters that \<open>Update\<close> and
  \<open>GetStats\<close> read, with the types that the \<open>Counts\<close> and \<open>Memory\<close> literals of
  tracker.go force on them.
\<close>

record ProcId =
  Pid :: int
  StartTime :: int

record ProcStatic =
  Name :: string
  Cmdline :: "string list"

record ProcMetrics =
  CpuTime :: f64
  m_ReadBytes :: uint64
  m_WriteBytes :: uint64
  m_ResidentBytes :: uint64
  m_VirtualBytes :: uint64

record ProcInfo =
  i_Static :: ProcStatic
  i_Metrics :: ProcMetrics

record ProcIdInfo =
  pi_Id :: ProcId
  pi_Static :: ProcStatic
  pi_Metrics :: ProcMetrics

text \<open>
  Modelled from the spec: the \<open>Procs\<close> iterator is declared outside the given sources.
  A scan is the list of the positions that \<open>Next\<close> visits, each with the result of the
  three reads (\<open>None\<close> is a read error), and the result of \<open>Close\<close> (\<open>Some\<close> is its
  error).
\<close>

record Obs =
  GetProcId :: "ProcId option"
  GetMetrics :: "ProcMetrics option"
  GetStatic :: "ProcStatic option"

section \<open>The tracker (tracker.go)\<close>

record Counts =
  Cpu :: f64
  ReadBytes :: uint64
  WriteBytes :: uint64

record Memory =
  Resident :: uint64
  Virtual :: uint64

record TrackedProc =
  lastUpdate :: time
  info :: ProcInfo
  accum :: Counts
  GroupName :: string

text \<open>
  The two Go maps are finite maps, read with \<open>fmlookup\<close>. A value \<open>None\<close> in
  \<open>Tracked\<close> is the nil pointer that marks an ignored process.
\<close>

record Tracker =
  Tracked :: "(ProcId, TrackedProc option) fmap"
  ProcIds :: "(int, ProcId) fmap"
  Filter :: "(ProcStatic \<Rightarrow> bool) option"

definition zeroCounts :: Counts where
  "zeroCounts = \<lparr>Cpu = Num 0, ReadBytes = 0, WriteBytes = 0\<rparr>"

definition GetName :: "TrackedProc \<Rightarrow> string" where
  "GetName tp = Name (i_Static (info tp))"

definition GetCmdLine :: "TrackedProc \<Rightarrow> string list" where
  "GetCmdLine tp = Cmdline (i_Static (info tp))"

definition GetStats :: "TrackedProc \<Rightarrow> Counts \<times> Memory" where
  "GetStats tp =
     (accum tp,
      \<lparr>Resident = m_ResidentBytes (i_Metrics (info tp)),
       Virtual = m_VirtualBytes (i_Metrics (info tp))\<rparr>)"

definition NewTracker :: Tracker where
  "NewTracker = \<lparr>Tracked = fmempty, ProcIds = fmempty, Filter = None\<rparr>"

definition Track :: "string \<Rightarrow> ProcIdInfo \<Rightarrow> Tracker \<Rightarrow> Tracker" where
  "Track groupName idinfo t =
     t\<lparr>Tracked :=
         fmupd (pi_Id idinfo)
           (Some \<lparr>lastUpdate = zeroTime,
                  info = \<lparr>i_Static = pi_Static idinfo, i_Metrics = pi_Metrics idinfo\<rparr>,
                  accum = zeroCounts,
                  GroupName = groupName\<rparr>)
           (Tracked t)\<rparr>"

text \<open>
  Modelled from the spec: \<open>Ignore\<close> is not in the given sources (the tests call it). It
  marks the identity as ignored, which the comment on \<open>Tracker\<close> describes as setting
  its value in the \<open>Tracked\<close> map to nil.
\<close>

definition Ignore :: "ProcId \<Rightarrow> Tracker \<Rightarrow> Tracker" where
  "Ignore procId t = t\<lparr>Tracked := fmupd procId None (Tracked t)\<rparr>"

text \<open>The branch of the scan loop for a process that is already tracked.\<close>

definition continue_tracked :: "time \<Rightarrow> ProcMetrics \<Rightarrow> TrackedProc \<Rightarrow> TrackedProc" where
  "continue_tracked now metrics last' =
     (let dcpu = f64_sub (CpuTime metrics) (CpuTime (i_Metrics (info last')));
          drbytes = m_ReadBytes metrics - m_ReadBytes (i_Metrics (info last'));
          dwbytes = m_WriteBytes metrics - m_WriteBytes (i_Metrics (info last'));
          lastaccum = \<lparr>Cpu = dcpu, ReadBytes = drbytes, WriteBytes = dwbytes\<rparr>;
          newaccum = \<lparr>Cpu = f64_add (Cpu (accum last')) (Cpu lastaccum),
                      ReadBytes = ReadBytes (accum last') + ReadBytes lastaccum,
                      WriteBytes = WriteBytes (accum last') + WriteBytes lastaccum\<rparr>
      in last'\<lparr>info := (info last')\<lparr>i_Metrics := metrics\<rparr>,
              lastUpdate := now,
              accum := newaccum\<rparr>)"

text \<open>The branch of the scan loop for a process that is not in \<open>Tracked\<close>.\<close>

definition discover :: "ProcId \<Rightarrow> ProcStatic \<Rightarrow> ProcMetrics \<Rightarrow>
    Tracker \<times> ProcIdInfo list \<Rightarrow> Tracker \<times> ProcIdInfo list" where
  "discover procId static metrics st =
     (let (t, newProcs) = st;
          newProcs' = newProcs @ [\<lparr>pi_Id = procId, pi_Static = static, pi_Metrics = metrics\<rparr>];
          tracked' = (case fmlookup (ProcIds t) (Pid procId) of
                        Some oldProcId \<Rightarrow> fmdrop oldProcId (Tracked t)
                      | None \<Rightarrow> Tracked t)
      in (t\<lparr>Tracked := tracked', ProcIds := fmupd (Pid procId) procId (ProcIds t)\<rparr>,
          newProcs'))"

text \<open>
  One round of the loop \<open>for procs.Next()\<close>; the state is the tracker with the list
  of new processes so far. Every \<open>continue\<close> of the source leaves the state as it is.
\<close>

definition Update_step :: "time \<Rightarrow> Obs \<Rightarrow> Tracker \<times> ProcIdInfo list \<Rightarrow>
    Tracker \<times> ProcIdInfo list" where
  "Update_step now p st =
     (case GetProcId p of
        None \<Rightarrow> st
      | Some procId \<Rightarrow>
          (case fmlookup (Tracked (fst st)) procId of
             Some None \<Rightarrow> st
           | Some (Some last') \<Rightarrow>
               (case GetMetrics p of
                  None \<Rightarrow> st
                | Some metrics \<Rightarrow>
                    ((fst st)\<lparr>Tracked :=
                        fmupd procId (Some (continue_tracked now metrics last'))
                          (Tracked (fst st))\<rparr>,
                     snd st))
           | None \<Rightarrow>
               (case GetMetrics p of
                  None \<Rightarrow> st
                | Some metrics \<Rightarrow>
                    (case GetStatic p of
                       None \<Rightarrow> st
                     | Some static \<Rightarrow> discover procId static metrics st))))"

text \<open>
  The pass over \<open>Tracked\<close> after the scan. It reads \<open>pinfo.lastUpdate\<close> of every
  value, so a nil value stops the program with a nil pointer dereference: the result
  is \<open>None\<close>. Otherwise every entry not updated at \<open>now\<close> is deleted, with the entry of
  its pid in \<open>ProcIds\<close>.
\<close>

definition is_stale :: "time \<Rightarrow> (ProcId, TrackedProc option) fmap \<Rightarrow> ProcId \<Rightarrow> bool" where
  "is_stale now m procId =
     (case fmlookup m procId of Some (Some pinfo) \<Rightarrow> lastUpdate pinfo \<noteq> now | _ \<Rightarrow> False)"

definition sweep :: "time \<Rightarrow> Tracker \<Rightarrow> Tracker option" where
  "sweep now t =
     (if \<exists>procId \<in> fmdom' (Tracked t). fmlookup (Tracked t) procId = Some None then None
      else Some (t\<lparr>Tracked := fmfilter (\<lambda>procId. \<not> is_stale now (Tracked t) procId) (Tracked t),
                  ProcIds := fmfilter
                    (\<lambda>pid. \<not> (\<exists>procId \<in> fmdom' (Tracked t).
                                 is_stale now (Tracked t) procId \<and> Pid procId = pid))
                    (ProcIds t)\<rparr>))"

text \<open>
  What a call of \<open>Update\<close> does: it stops in a nil pointer dereference, or returns
  nil with an error, or returns the new processes. The tracker is the receiver as
  the call leaves it.
\<close>

datatype update_result =
    Panicked
  | Failed string Tracker
  | Returned "ProcIdInfo list" Tracker

definition Tracker_Update :: "Tracker \<Rightarrow> time \<Rightarrow> Obs list \<Rightarrow> string option \<Rightarrow> update_result" where
  "Tracker_Update t now procs close =
     (let st = fold (Update_step now) procs (t, []) in
      case close of
        Some err \<Rightarrow> Failed (''Error reading procs: '' @ err) (fst st)
      | None \<Rightarrow>
          (case sweep now (fst st) of
             None \<Rightarrow> Panicked
           | Some t' \<Rightarrow> Returned (snd st) t'))"

text \<open>Consecutive cycles whose scans close without an error; \<open>None\<close> when one does not return.\<close>

fun Update_cycles :: "Tracker \<Rightarrow> (time \<times> Obs list) list \<Rightarrow> Tracker option" where
  "Update_cycles t [] = Some t"
| "Update_cycles t (c # cs) =
     (case Tracker_Update t (fst c) (snd c) None of
        Returned newProcs t' \<Rightarrow> Update_cycles t' cs
      | _ \<Rightarrow> None)"

section \<open>The grouper (grouper.go)\<close>

text \<open>
  Modelled from the spec: the type \<open>Update\<close> of the tracker's reports, with \<open>Filedesc\<close>
  and the \<open>Memory\<close> of this version, is declared outside the given sources. The
  fields are the ones that \<open>groupadd\<close> reads. \<open>Open\<close> is a signed count of open
  descriptors, compared with -1 and converted with \<open>uint64\<close>; \<open>Limit\<close> is the
  descriptor limit, an unsigned count.
\<close>

record Filedesc =
  Open :: int64
  Limit :: uint64

record GMemory =
  ResidentBytes :: uint64
  VirtualBytes :: uint64

record Update =
  u_GroupName :: string
  Latest :: Counts
  u_Memory :: GMemory
  u_Filedesc :: Filedesc
  u_NumThreads :: uint64
  Start :: time

record Group =
  g_Counts :: Counts
  Procs :: int64
  g_Memory :: GMemory
  OldestStartTime :: time
  OpenFDs :: uint64
  WorstFDratio :: f64
  NumThreads :: uint64

type_synonym GroupByName = "string \<rightharpoonup> Group"

record 'tr Grouper =
  groupAccum :: "string \<rightharpoonup> Counts"
  tracker :: 'tr

text \<open>The zero value of \<open>Group\<close>, which a Go map returns for a missing key.\<close>

definition zeroGroup :: Group where
  "zeroGroup =
     \<lparr>g_Counts = zeroCounts, Procs = 0,
      g_Memory = \<lparr>ResidentBytes = 0, VirtualBytes = 0\<rparr>,
      OldestStartTime = zeroTime, OpenFDs = 0, WorstFDratio = Num 0, NumThreads = 0\<rparr>"

text \<open>
  Modelled from the spec: the method \<open>Counts.Add\<close> is declared outside the given
  sources. It adds the counters of its argument to the receiver, field by field.
\<close>

definition Counts_Add :: "Counts \<Rightarrow> Counts \<Rightarrow> Counts" where
  "Counts_Add c c2 =
     \<lparr>Cpu = f64_add (Cpu c) (Cpu c2),
      ReadBytes = ReadBytes c + ReadBytes c2,
      WriteBytes = WriteBytes c + WriteBytes c2\<rparr>"

definition NewGrouper :: "'tr \<Rightarrow> 'tr Grouper" where
  "NewGrouper tr = \<lparr>groupAccum = Map.empty, tracker = tr\<rparr>"

definition groupadd :: "Group \<Rightarrow> Update \<Rightarrow> Group" where
  "groupadd grp ts =
     (let openratio = f64_div (float64_of_int64 (Open (u_Filedesc ts)))
                              (float64_of_uint64 (Limit (u_Filedesc ts)))
      in grp\<lparr>Procs := Procs grp + 1,
             g_Memory := \<lparr>ResidentBytes = ResidentBytes (g_Memory grp) + ResidentBytes (u_Memory ts),
                          VirtualBytes = VirtualBytes (g_Memory grp) + VirtualBytes (u_Memory ts)\<rparr>,
             OpenFDs := (if Open (u_Filedesc ts) \<noteq> - 1
                         then OpenFDs grp + Open (u_Filedesc ts) else OpenFDs grp),
             WorstFDratio := (if f64_less (WorstFDratio grp) openratio
                              then openratio else WorstFDratio grp),
             NumThreads := NumThreads grp + u_NumThreads ts,
             g_Counts := Counts_Add (g_Counts grp) (Latest ts),
             OldestStartTime := (if OldestStartTime grp = zeroTime \<or> Start ts < OldestStartTime grp
                                 then Start ts else OldestStartTime grp)\<rparr>)"

text \<open>The first loop of \<open>Update\<close>: the reports of the tracker, aggregated by group name.\<close>

definition add_update :: "Update \<Rightarrow> GroupByName \<Rightarrow> GroupByName" where
  "add_update update groups =
     groups(u_GroupName update \<mapsto>
       groupadd (case groups (u_GroupName update) of None \<Rightarrow> zeroGroup | Some grp \<Rightarrow> grp) update)"

definition aggregate :: "Update list \<Rightarrow> GroupByName" where
  "aggregate tracked = fold add_update tracked Map.empty"

text \<open>
  The second loop: every group of this cycle gets the counts accumulated for its
  name in the past, and the sum becomes the accumulated counts of the name.
\<close>

definition add_accum :: "(string \<rightharpoonup> Counts) \<Rightarrow> GroupByName \<Rightarrow> GroupByName" where
  "add_accum acc groups =
     (\<lambda>gname. case groups gname of
        None \<Rightarrow> None
      | Some grp \<Rightarrow>
          (case acc gname of
             Some oldcounts \<Rightarrow> Some (grp\<lparr>g_Counts := Counts_Add (g_Counts grp) oldcounts\<rparr>)
           | None \<Rightarrow> Some grp))"

definition store_accum :: "(string \<rightharpoonup> Counts) \<Rightarrow> GroupByName \<Rightarrow> (string \<rightharpoonup> Counts)" where
  "store_accum acc groups =
     (\<lambda>gname. case groups gname of Some grp \<Rightarrow> Some (g_Counts grp) | None \<Rightarrow> acc gname)"

text \<open>The third loop: the names accumulated in the past that have no group in this cycle.\<close>

definition add_past :: "(string \<rightharpoonup> Counts) \<Rightarrow> GroupByName \<Rightarrow> GroupByName" where
  "add_past acc groups =
     (\<lambda>gname. case groups gname of
        Some grp \<Rightarrow> Some grp
      | None \<Rightarrow>
          (case acc gname of
             Some gcounts \<Rightarrow> Some (zeroGroup\<lparr>g_Counts := gcounts\<rparr>)
           | None \<Rightarrow> None))"

text \<open>
  \<open>Grouper.Update\<close>. The tracker that this version of the grouper calls is not in the
  given sources, so its \<open>Update\<close> is the parameter \<open>upd\<close>: from the tracker and the
  iterator to the collection errors, the reports, the error, and the tracker as the
  call leaves it. The result is the triple that the source returns (\<open>None\<close> is the nil
  map) with the grouper as the call leaves it.
\<close>

definition Grouper_Update ::
    "('tr \<Rightarrow> 'it \<Rightarrow> ('ce \<times> Update list \<times> 'e option) \<times> 'tr) \<Rightarrow> 'tr Grouper \<Rightarrow> 'it \<Rightarrow>
     ('ce \<times> GroupByName option \<times> 'e option) \<times> 'tr Grouper" where
  "Grouper_Update upd g iter =
     (case upd (tracker g) iter of
        ((cerrs, tracked, err), tr') \<Rightarrow>
          (case err of
             Some e \<Rightarrow> ((cerrs, None, Some e), g\<lparr>tracker := tr'\<rparr>)
           | None \<Rightarrow>
               (let groups = add_accum (groupAccum g) (aggregate tracked);
                    acc' = store_accum (groupAccum g) groups
                in ((cerrs, Some (add_past acc' groups), None),
                    g\<lparr>groupAccum := acc', tracker := tr'\<rparr>))))"

section \<open>Notions used in the statements\<close>

text \<open>The accumulator of a process that is tracked, \<open>None\<close> for any other identity.\<close>

definition tracked_accum :: "Tracker \<Rightarrow> ProcId \<Rightarrow> Counts option" where
  "tracked_accum t p =
     (case fmlookup (Tracked t) p of Some (Some tp) \<Rightarrow> Some (accum tp) | _ \<Rightarrow> None)"

text \<open>A position of a scan where the identity and the metrics are read without error.\<close>

definition seen :: "ProcId \<Rightarrow> ProcMetrics \<Rightarrow> Obs" where
  "seen p m = \<lparr>GetProcId = Some p, GetMetrics = Some m, GetStatic = None\<rparr>"

definition io_metrics :: "f64 \<Rightarrow> uint64 \<Rightarrow> uint64 \<Rightarrow> ProcMetrics" where
  "io_metrics c r w =
     \<lparr>CpuTime = c, m_ReadBytes = r, m_WriteBytes = w, m_ResidentBytes = 0, m_VirtualBytes = 0\<rparr>"

text \<open>
  One of the reads that the loop makes at a position fails: the identity, or the
  metrics of a process that is not ignored, or the static attributes of a process
  that is not in \<open>Tracked\<close>.
\<close>

definition read_fails :: "Tracker \<Rightarrow> Obs \<Rightarrow> bool" where
  "read_fails t p =
     (case GetProcId p of
        None \<Rightarrow> True
      | Some procId \<Rightarrow>
          (case fmlookup (Tracked t) procId of
             Some None \<Rightarrow> False
           | Some (Some last') \<Rightarrow> GetMetrics p = None
           | None \<Rightarrow> GetMetrics p = None \<or> GetStatic p = None))"

text \<open>No process is ignored.\<close>

definition no_ignored :: "Tracker \<Rightarrow> bool" where
  "no_ignored t = (\<forall>procId \<in> fmdom' (Tracked t). fmlookup (Tracked t) procId \<noteq> Some None)"

text \<open>
  The I/O counters of a position of a scan read \<open>s\<close>, if the position is the process
  \<open>p\<close> and its metrics can be read; and the same for every position of every cycle.
\<close>

definition io_reads :: "uint64 \<Rightarrow> ProcId \<Rightarrow> Obs \<Rightarrow> bool" where
  "io_reads s p ob =
     (GetProcId ob \<noteq> Some p \<or>
      (case GetMetrics ob of None \<Rightarrow> True | Some m \<Rightarrow> m_ReadBytes m = s \<and> m_WriteBytes m = s))"

definition io_reads_always :: "uint64 \<Rightarrow> ProcId \<Rightarrow> (time \<times> Obs list) list \<Rightarrow> bool" where
  "io_reads_always s p cycles = list_all (\<lambda>c. list_all (io_reads s p) (snd c)) cycles"

text \<open>
  If \<open>p\<close> is tracked, its I/O counters were last read as \<open>s\<close> and nothing is
  accumulated for them.
\<close>

definition io_idle :: "uint64 \<Rightarrow> ProcId \<Rightarrow> Tracker \<Rightarrow> bool" where
  "io_idle s p t =
     (case fmlookup (Tracked t) p of
        Some (Some tp) \<Rightarrow>
          m_ReadBytes (i_Metrics (info tp)) = s \<and> m_WriteBytes (i_Metrics (info tp)) = s
          \<and> ReadBytes (accum tp) = 0 \<and> WriteBytes (accum tp) = 0
      | _ \<Rightarrow> True)"

text \<open>
  The tracker after the process \<open>(pid=5, start=100)\<close> was found by a scan and then
  tracked in the group \<open>g\<close>.
\<close>

definition found_5_100 :: Obs where
  "found_5_100 =
     \<lparr>GetProcId = Some \<lparr>Pid = 5, StartTime = 100\<rparr>, GetMetrics = Some (io_metrics (Num 1) 2 3),
      GetStatic = Some \<lparr>Name = ''old'', Cmdline = []\<rparr>\<rparr>"

definition tracking_5_100 :: Tracker where
  "tracking_5_100 =
     Track ''g''
       \<lparr>pi_Id = \<lparr>Pid = 5, StartTime = 100\<rparr>, pi_Static = \<lparr>Name = ''old'', Cmdline = []\<rparr>,
        pi_Metrics = io_metrics (Num 1) 2 3\<rparr>
       \<lparr>Tracked = fmempty, ProcIds = fmupd 5 \<lparr>Pid = 5, StartTime = 100\<rparr> fmempty, Filter = None\<rparr>"

definition found_5_200 :: Obs where
  "found_5_200 =
     \<lparr>GetProcId = Some \<lparr>Pid = 5, StartTime = 200\<rparr>, GetMetrics = Some (io_metrics (Num 0) 0 0),
      GetStatic = Some \<lparr>Name = ''new'', Cmdline = []\<rparr>\<rparr>"

text \<open>The reports of a cycle for one group name, and the sum of their counts from zero.\<close>

definition members :: "string \<Rightarrow> Update list \<Rightarrow> Update list" where
  "members gname tracked = filter (\<lambda>u. u_GroupName u = gname) tracked"

definition live_counts :: "Update list \<Rightarrow> Counts" where
  "live_counts ms = fold (\<lambda>u c. Counts_Add c (Latest u)) ms zeroCounts"

text \<open>The aggregate of a list of reports, from the zero group.\<close>

definition group_of :: "Update list \<Rightarrow> Group" where
  "group_of ms = fold (\<lambda>u grp. groupadd grp u) ms zeroGroup"

text \<open>The map that a cycle without error returns, from the accumulated counts and the reports.\<close>

definition cycle_groups :: "(string \<rightharpoonup> Counts) \<Rightarrow> Update list \<Rightarrow> GroupByName" where
  "cycle_groups acc tracked =
     add_past (store_accum acc (add_accum acc (aggregate tracked)))
       (add_accum acc (aggregate tracked))"

text \<open>The counters and the worst ratio that a result of \<open>Grouper.Update\<close> has for a name.\<close>

definition emitted ::
    "('ce \<times> GroupByName option \<times> 'e option) \<times> 'tr Grouper \<Rightarrow> string \<Rightarrow> Counts option" where
  "emitted r gname =
     (case fst (snd (fst r)) of
        None \<Rightarrow> None
      | Some groups \<Rightarrow> map_option g_Counts (groups gname))"

definition emitted_ratio ::
    "('ce \<times> GroupByName option \<times> 'e option) \<times> 'tr Grouper \<Rightarrow> string \<Rightarrow> f64 option" where
  "emitted_ratio r gname =
     (case fst (snd (fst r)) of
        None \<Rightarrow> None
      | Some groups \<Rightarrow> map_option WorstFDratio (groups gname))"

text \<open>A number that is not negative.\<close>

fun nonneg_num :: "f64 \<Rightarrow> bool" where
  "nonneg_num (Num a) = (0 \<le> a)"
| "nonneg_num x = False"

text \<open>
  No counter of \<open>c'\<close> is below the one of \<open>c\<close>; the byte counters are compared
  unsigned.
\<close>

definition Counts_le :: "Counts \<Rightarrow> Counts \<Rightarrow> bool" where
  "Counts_le c c' =
     (\<not> f64_less (Cpu c') (Cpu c) \<and> ReadBytes c \<le> ReadBytes c' \<and> WriteBytes c \<le> WriteBytes c')"

text \<open>
  Adding the byte counts of the reports \<open>ms\<close> to \<open>old\<close> does not pass \<open>2^64 - 1\<close>; the
  CPU counts of the reports \<open>ms\<close> are numbers that are not negative.
\<close>

definition no_wrap :: "Counts \<Rightarrow> Update list \<Rightarrow> bool" where
  "no_wrap old ms =
     (unat (ReadBytes old) + sum_list (map (\<lambda>u. unat (ReadBytes (Latest u))) ms) < 2 ^ 64
      \<and> unat (WriteBytes old) + sum_list (map (\<lambda>u. unat (WriteBytes (Latest u))) ms) < 2 ^ 64)"

definition cpu_nonneg :: "Update list \<Rightarrow> bool" where
  "cpu_nonneg ms = list_all (\<lambda>u. nonneg_num (Cpu (Latest u))) ms"

text \<open>
  For the examples: a report for a group with given counts and descriptors, and a
  tracker whose \<open>Update\<close> reports the list that it is handed, without error, or
  fails with the error of \<open>Close\<close>.
\<close>

definition report :: "string \<Rightarrow> Counts \<Rightarrow> int64 \<Rightarrow> uint64 \<Rightarrow> Update" where
  "report gname c fds limit =
     \<lparr>u_GroupName = gname, Latest = c, u_Memory = \<lparr>ResidentBytes = 0, VirtualBytes = 0\<rparr>,
      u_Filedesc = \<lparr>Open = fds, Limit = limit\<rparr>, u_NumThreads = 1, Start = 1\<rparr>"

definition report_all ::
    "unit \<Rightarrow> Update list \<Rightarrow> (unit \<times> Update list \<times> string option) \<times> unit" where
  "report_all tr iter = (((), iter, None), tr)"

definition report_failure ::
    "unit \<Rightarrow> Update list \<Rightarrow> (unit \<times> Update list \<times> string option) \<times> unit" where
  "report_failure tr iter = (((), [], Some ''Error reading procs: closed''), tr)"


text \<open>
  \<open>ProcIds\<close> gives for a pid only an identity with that pid. The empty index of
  \<open>NewTracker\<close> is so, and the loop, which stores \<open>procId\<close> under \<open>procId.Pid\<close>, and
  the pass after the scan keep it so.
\<close>

definition index_ok :: "Tracker \<Rightarrow> bool" where
  "index_ok t =
     (\<forall>pid \<in> fmdom' (ProcIds t). map_option Pid (fmlookup (ProcIds t) pid) = Some pid)"

text \<open>
  A scan observes the process \<open>p\<close> with the metrics \<open>m\<close>: one position of the scan, and
  only one, shows the pid of \<open>p\<close>; it reads the identity \<open>p\<close> and the metrics \<open>m\<close>.
  The other positions are any.
\<close>

definition shows_pid :: "int \<Rightarrow> Obs \<Rightarrow> bool" where
  "shows_pid pid ob = (map_option Pid (GetProcId ob) = Some pid)"

definition observed :: "ProcId \<Rightarrow> ProcMetrics \<Rightarrow> Obs list \<Rightarrow> bool" where
  "observed p m procs =
     (case filter (shows_pid (Pid p)) procs of
        [ob] \<Rightarrow> GetProcId ob = Some p \<and> GetMetrics ob = Some m
      | _ \<Rightarrow> False)"

text \<open>
  The sum of the successive deltas, in the words of the specification: from an
  accumulator and the last metrics, each reading adds its difference to the reading
  before it.
\<close>

definition delta :: "ProcMetrics \<Rightarrow> ProcMetrics \<Rightarrow> Counts" where
  "delta m lastm =
     \<lparr>Cpu = f64_sub (CpuTime m) (CpuTime lastm),
      ReadBytes = m_ReadBytes m - m_ReadBytes lastm,
      WriteBytes = m_WriteBytes m - m_WriteBytes lastm\<rparr>"

fun sum_deltas :: "Counts \<Rightarrow> ProcMetrics \<Rightarrow> ProcMetrics list \<Rightarrow> Counts" where
  "sum_deltas acc lastm [] = acc"
| "sum_deltas acc lastm (m # ms) =
     sum_deltas
       \<lparr>Cpu = f64_add (Cpu acc) (Cpu (delta m lastm)),
        ReadBytes = ReadBytes acc + ReadBytes (delta m lastm),
        WriteBytes = WriteBytes acc + WriteBytes (delta m lastm)\<rparr>
       m ms"

text \<open>A position where a process is read with all its attributes.\<close>

definition found :: "ProcId \<Rightarrow> string \<Rightarrow> ProcMetrics \<Rightarrow> Obs" where
  "found q n m = \<lparr>GetProcId = Some q, GetMetrics = Some m, GetStatic = Some \<lparr>Name = n, Cmdline = []\<rparr>\<rparr>"













section \<open>Properties of the tracker\<close>

lemmas tracker_defs =
  Tracker_Update_def Update_step_def sweep_def is_stale_def continue_tracked_def discover_def
  Track_def Ignore_def NewTracker_def zeroCounts_def zeroTime_def f64_sub_def Let_def
  tracked_accum_def seen_def io_metrics_def

subsection \<open>Tracking an ignored process\<close>

text \<open>
  C7, as the claim states it, fails. The process \<open>(pid=1, start=1)\<close> is ignored and then
  handed to \<open>Track\<close>: the nil entry is gone, and the process is tracked with a zero
  accumulator.
\<close>

theorem track_ignored_counterexample:
  "fmlookup (Tracked (Ignore \<lparr>Pid = 1, StartTime = 1\<rparr> NewTracker)) \<lparr>Pid = 1, StartTime = 1\<rparr>
     = Some None
   \<and> fmlookup
       (Tracked (Track ''g1''
          \<lparr>pi_Id = \<lparr>Pid = 1, StartTime = 1\<rparr>, pi_Static = \<lparr>Name = ''p1'', Cmdline = []\<rparr>,
           pi_Metrics = io_metrics (Num 0) 0 0\<rparr>
          (Ignore \<lparr>Pid = 1, StartTime = 1\<rparr> NewTracker)))
       \<lparr>Pid = 1, StartTime = 1\<rparr>
     \<noteq> Some None
   \<and> tracked_accum
       (Track ''g1''
          \<lparr>pi_Id = \<lparr>Pid = 1, StartTime = 1\<rparr>, pi_Static = \<lparr>Name = ''p1'', Cmdline = []\<rparr>,
           pi_Metrics = io_metrics (Num 0) 0 0\<rparr>
          (Ignore \<lparr>Pid = 1, StartTime = 1\<rparr> NewTracker))
       \<lparr>Pid = 1, StartTime = 1\<rparr>
     = Some \<lparr>Cpu = Num 0, ReadBytes = 0, WriteBytes = 0\<rparr>"
  by (simp add: tracker_defs)

text \<open>
  C7, amended. \<open>Track\<close> has no guard: whatever the tracker holds for the identity, an
  ignored process included, the call stores a tracked entry with the group name, the
  static attributes and metrics of the observation, the zero time and a zero
  accumulator.
\<close>

theorem track_overwrites:
  "fmlookup (Tracked (Track groupName idinfo t)) (pi_Id idinfo) =
     Some (Some \<lparr>lastUpdate = zeroTime,
                 info = \<lparr>i_Static = pi_Static idinfo, i_Metrics = pi_Metrics idinfo\<rparr>,
                 accum = zeroCounts,
                 GroupName = groupName\<rparr>)"
  by (simp add: Track_def)

subsection \<open>Ignored processes and the pass after the scan\<close>

text \<open>
  C3. The claim is that an ignored process stays ignored through the pass over
  \<open>Tracked\<close> of every later \<open>Update\<close>. The pass reads \<open>lastUpdate\<close> through the nil
  entry: with any tracker, the first \<open>Update\<close> whose scan closes without error after
  \<open>Ignore\<close> stops in a nil pointer dereference, whether the scan is empty or shows
  the ignored process.
\<close>

theorem update_after_ignore_panics:
  "Tracker_Update (Ignore p t) now [] None = Panicked
   \<and> Tracker_Update (Ignore p t) now [seen p m] None = Panicked"
  by (simp add: Tracker_Update_def Ignore_def sweep_def Update_step_def seen_def)

subsection \<open>Read failures\<close>

lemma Update_step_read_fails: "read_fails (fst st) p \<Longrightarrow> Update_step now p st = st"
  by (auto simp: read_fails_def Update_step_def split: option.splits)

text \<open>
  C8, as the claim states it, fails in one part: the failure is not recorded in what
  \<open>Update\<close> returns. A scan whose only position fails to give its metrics returns
  what the empty scan returns, no new process and no error, and leaves the same
  tracker.
\<close>

theorem read_failure_counterexample:
  "Tracker_Update NewTracker 1
     [\<lparr>GetProcId = Some \<lparr>Pid = 1, StartTime = 1\<rparr>, GetMetrics = None, GetStatic = None\<rparr>] None
     = Returned [] NewTracker
   \<and> Tracker_Update NewTracker 1 [] None = Returned [] NewTracker"
  by (simp add: tracker_defs)

text \<open>
  C8, amended. When a read of a position fails, the loop goes to the next position
  with the tracker and the list of new processes as they were: the whole call does
  what it does on the scan without that position, so the other positions are all
  processed and the failure alone never makes the call fail. The return value has
  no place for the failure.
\<close>

theorem read_failure_skips:
  assumes "read_fails (fst (fold (Update_step now) pre (t, []))) p"
  shows "Update_step now p (fold (Update_step now) pre (t, [])) = fold (Update_step now) pre (t, [])
    \<and> Tracker_Update t now (pre @ p # post) close = Tracker_Update t now (pre @ post) close"
  using assms by (simp add: Tracker_Update_def Update_step_read_fails)

theorem read_failure_skips_witness:
  "read_fails
     (fst (fold (Update_step 1)
        [\<lparr>GetProcId = Some \<lparr>Pid = 1, StartTime = 1\<rparr>, GetMetrics = Some (io_metrics (Num 0) 0 0),
          GetStatic = Some \<lparr>Name = ''p1'', Cmdline = []\<rparr>\<rparr>]
        (NewTracker, [])))
     \<lparr>GetProcId = Some \<lparr>Pid = 2, StartTime = 2\<rparr>, GetMetrics = None, GetStatic = None\<rparr>
   \<and> Tracker_Update NewTracker 1
       [\<lparr>GetProcId = Some \<lparr>Pid = 1, StartTime = 1\<rparr>, GetMetrics = Some (io_metrics (Num 0) 0 0),
         GetStatic = Some \<lparr>Name = ''p1'', Cmdline = []\<rparr>\<rparr>,
        \<lparr>GetProcId = Some \<lparr>Pid = 2, StartTime = 2\<rparr>, GetMetrics = None, GetStatic = None\<rparr>,
        \<lparr>GetProcId = Some \<lparr>Pid = 3, StartTime = 3\<rparr>, GetMetrics = Some (io_metrics (Num 0) 0 0),
         GetStatic = Some \<lparr>Name = ''p3'', Cmdline = []\<rparr>\<rparr>]
       None
     = Tracker_Update NewTracker 1
       [\<lparr>GetProcId = Some \<lparr>Pid = 1, StartTime = 1\<rparr>, GetMetrics = Some (io_metrics (Num 0) 0 0),
         GetStatic = Some \<lparr>Name = ''p1'', Cmdline = []\<rparr>\<rparr>,
        \<lparr>GetProcId = Some \<lparr>Pid = 3, StartTime = 3\<rparr>, GetMetrics = Some (io_metrics (Num 0) 0 0),
         GetStatic = Some \<lparr>Name = ''p3'', Cmdline = []\<rparr>\<rparr>]
       None"
proof -
  have h: "read_fails
     (fst (fold (Update_step 1)
        [\<lparr>GetProcId = Some \<lparr>Pid = 1, StartTime = 1\<rparr>, GetMetrics = Some (io_metrics (Num 0) 0 0),
          GetStatic = Some \<lparr>Name = ''p1'', Cmdline = []\<rparr>\<rparr>]
        (NewTracker, [])))
     \<lparr>GetProcId = Some \<lparr>Pid = 2, StartTime = 2\<rparr>, GetMetrics = None, GetStatic = None\<rparr>"
    by (simp add: read_fails_def tracker_defs)
  from read_failure_skips [OF h,
      of "[\<lparr>GetProcId = Some \<lparr>Pid = 3, StartTime = 3\<rparr>, GetMetrics = Some (io_metrics (Num 0) 0 0),
         GetStatic = Some \<lparr>Name = ''p3'', Cmdline = []\<rparr>\<rparr>]" None]
  show ?thesis using h by simp
qed

subsection \<open>What the loop never does\<close>

lemma Update_step_unknown:
  "fmlookup (Tracked (fst st)) k = None \<Longrightarrow>
     fmlookup (Tracked (fst (Update_step now q st))) k = None"
  by (auto simp: Update_step_def discover_def Let_def split: option.splits prod.splits)

lemma Update_loop_unknown:
  "fmlookup (Tracked (fst st)) k = None \<Longrightarrow>
     fmlookup (Tracked (fst (fold (Update_step now) qs st))) k = None"
  by (induction qs arbitrary: st) (simp_all add: Update_step_unknown)

lemma Update_step_newProcs: "set (snd st) \<subseteq> set (snd (Update_step now q st))"
  by (auto simp: Update_step_def discover_def Let_def split: option.splits prod.splits)

lemma Update_loop_newProcs: "set (snd st) \<subseteq> set (snd (fold (Update_step now) qs st))"
proof (induction qs arbitrary: st)
  case Nil
  show ?case by simp
next
  case (Cons q qs)
  have "set (snd st) \<subseteq> set (snd (Update_step now q st))"
    by (rule Update_step_newProcs)
  also have "\<dots> \<subseteq> set (snd (fold (Update_step now) qs (Update_step now q st)))"
    by (rule Cons.IH)
  finally show ?case by simp
qed

lemma Update_step_no_ignored:
  "no_ignored (fst st) \<Longrightarrow> no_ignored (fst (Update_step now q st))"
  by (auto simp: no_ignored_def Update_step_def discover_def Let_def
      split: option.splits prod.splits if_splits)

lemma Update_loop_no_ignored:
  "no_ignored (fst st) \<Longrightarrow> no_ignored (fst (fold (Update_step now) qs st))"
  by (induction qs arbitrary: st) (simp_all add: Update_step_no_ignored)

lemma sweep_no_ignored: "no_ignored t \<Longrightarrow> \<exists>t'. sweep now t = Some t'"
  by (auto simp: sweep_def no_ignored_def)

lemma sweep_unknown:
  "sweep now t = Some t' \<Longrightarrow> fmlookup (Tracked t) k = None \<Longrightarrow> fmlookup (Tracked t') k = None"
  by (auto simp: sweep_def split: if_splits)

subsection \<open>Delta accumulation\<close>

lemma index_ok_lookup:
  assumes "index_ok t" and "fmlookup (ProcIds t) pid = Some q"
  shows "Pid q = pid"
proof -
  have "pid \<in> fmdom' (ProcIds t)"
    using assms(2) by (rule fmdom'I)
  then have "map_option Pid (fmlookup (ProcIds t) pid) = Some pid"
    using assms(1) by (simp add: index_ok_def)
  then show ?thesis
    using assms(2) by simp
qed

lemma Update_step_index_ok: "index_ok (fst st) \<Longrightarrow> index_ok (fst (Update_step now ob st))"
  by (auto simp: index_ok_def Update_step_def discover_def Let_def
      split: option.splits prod.splits if_splits)

lemma Update_step_other:
  assumes "index_ok (fst st)" and "\<not> shows_pid (Pid p) ob"
  shows "fmlookup (Tracked (fst (Update_step now ob st))) p = fmlookup (Tracked (fst st)) p"
proof (cases "GetProcId ob")
  case None
  then show ?thesis by (simp add: Update_step_def)
next
  case (Some q)
  then have pq: "Pid q \<noteq> Pid p"
    using assms(2) by (simp add: shows_pid_def)
  then have "q \<noteq> p" by auto
  moreover have "\<And>old. fmlookup (ProcIds (fst st)) (Pid q) = Some old \<Longrightarrow> old \<noteq> p"
    using index_ok_lookup [OF assms(1)] pq by auto
  ultimately show ?thesis
    using Some
    by (cases st) (auto simp: Update_step_def discover_def Let_def split: option.splits)
qed

lemma Update_step_self:
  assumes "fmlookup (Tracked (fst st)) p = Some (Some e)"
    and "GetProcId ob = Some p" and "GetMetrics ob = Some m"
  shows "fmlookup (Tracked (fst (Update_step now ob st))) p = Some (Some (continue_tracked now m e))"
  using assms by (simp add: Update_step_def)

lemma Update_loop_index_ok:
  "index_ok (fst st) \<Longrightarrow> index_ok (fst (fold (Update_step now) obs st))"
  by (induction obs arbitrary: st) (simp_all add: Update_step_index_ok)

lemma Update_loop_others:
  "index_ok (fst st) \<Longrightarrow> filter (shows_pid (Pid p)) obs = [] \<Longrightarrow>
     fmlookup (Tracked (fst (fold (Update_step now) obs st))) p = fmlookup (Tracked (fst st)) p"
proof (induction obs arbitrary: st)
  case Nil
  show ?case by simp
next
  case (Cons ob obs)
  from Cons.prems(2) have no: "\<not> shows_pid (Pid p) ob" and rest: "filter (shows_pid (Pid p)) obs = []"
    by (auto split: if_splits)
  have "fmlookup (Tracked (fst (fold (Update_step now) obs (Update_step now ob st)))) p
      = fmlookup (Tracked (fst (Update_step now ob st))) p"
    using Cons.prems(1) rest by (intro Cons.IH Update_step_index_ok)
  then show ?case
    using Update_step_other [OF Cons.prems(1) no] by simp
qed

lemma Update_loop_observed:
  "index_ok (fst st) \<Longrightarrow> fmlookup (Tracked (fst st)) p = Some (Some e) \<Longrightarrow> observed p m obs \<Longrightarrow>
     fmlookup (Tracked (fst (fold (Update_step now) obs st))) p
       = Some (Some (continue_tracked now m e))"
proof (induction obs arbitrary: st)
  case Nil
  then show ?case by (simp add: observed_def)
next
  case (Cons ob obs)
  have ok: "index_ok (fst (Update_step now ob st))"
    using Cons.prems(1) by (rule Update_step_index_ok)
  show ?case
  proof (cases "shows_pid (Pid p) ob")
    case True
    with Cons.prems(3) have rest: "filter (shows_pid (Pid p)) obs = []"
      and reads: "GetProcId ob = Some p" "GetMetrics ob = Some m"
      by (auto simp: observed_def split: list.splits)
    have "fmlookup (Tracked (fst (Update_step now ob st))) p = Some (Some (continue_tracked now m e))"
      using Cons.prems(2) reads by (rule Update_step_self)
    then show ?thesis
      using Update_loop_others [OF ok rest, of now] by simp
  next
    case False
    then have "observed p m obs"
      using Cons.prems(3) by (simp add: observed_def)
    moreover have "fmlookup (Tracked (fst (Update_step now ob st))) p = Some (Some e)"
      using Update_step_other [OF Cons.prems(1) False] Cons.prems(2) by simp
    ultimately show ?thesis
      using Cons.IH [OF ok] by simp
  qed
qed

lemma sweep_keeps:
  assumes "no_ignored t" and "index_ok t"
  shows "\<exists>t'. sweep now t = Some t' \<and> no_ignored t' \<and> index_ok t'
     \<and> (\<forall>p e. fmlookup (Tracked t) p = Some (Some e) \<longrightarrow> lastUpdate e = now \<longrightarrow>
           fmlookup (Tracked t') p = Some (Some e))"
  using assms
  by (auto simp: sweep_def no_ignored_def index_ok_def is_stale_def split: if_splits)

lemma Update_observed:
  assumes ni: "no_ignored t" and ix: "index_ok t"
    and e: "fmlookup (Tracked t) p = Some (Some e)"
    and ob: "observed p m procs"
  shows "\<exists>newProcs t'. Tracker_Update t now procs None = Returned newProcs t'
     \<and> no_ignored t' \<and> index_ok t'
     \<and> fmlookup (Tracked t') p = Some (Some (continue_tracked now m e))"
proof -
  let ?st = "fold (Update_step now) procs (t, [])"
  have ni': "no_ignored (fst ?st)"
    by (rule Update_loop_no_ignored) (simp add: ni)
  have ix': "index_ok (fst ?st)"
    by (rule Update_loop_index_ok) (simp add: ix)
  have e': "fmlookup (Tracked (fst ?st)) p = Some (Some (continue_tracked now m e))"
    by (rule Update_loop_observed) (simp_all add: ix e ob)
  from sweep_keeps [OF ni' ix', of now] obtain t' where
    sw: "sweep now (fst ?st) = Some t'" and ni'': "no_ignored t'" and ix'': "index_ok t'"
    and keep: "\<And>p e. fmlookup (Tracked (fst ?st)) p = Some (Some e) \<Longrightarrow> lastUpdate e = now \<Longrightarrow>
           fmlookup (Tracked t') p = Some (Some e)"
    by blast
  have "fmlookup (Tracked t') p = Some (Some (continue_tracked now m e))"
    by (rule keep [OF e']) (simp add: continue_tracked_def Let_def)
  moreover have "Tracker_Update t now procs None = Returned (snd ?st) t'"
    by (simp add: Tracker_Update_def Let_def sw)
  ultimately show ?thesis
    using ni'' ix'' by blast
qed

lemma cycles_accumulate:
  "no_ignored t \<Longrightarrow> index_ok t \<Longrightarrow> fmlookup (Tracked t) p = Some (Some e) \<Longrightarrow>
   list_all2 (\<lambda>c m. observed p m (snd c)) cycles ms \<Longrightarrow>
     \<exists>t' e'. Update_cycles t cycles = Some t' \<and> fmlookup (Tracked t') p = Some (Some e')
        \<and> accum e' = sum_deltas (accum e) (i_Metrics (info e)) ms"
proof (induction cycles arbitrary: t e ms)
  case Nil
  then show ?case by simp
next
  case (Cons c cs)
  from Cons.prems(4) obtain m ms' where ms: "ms = m # ms'"
    and ob: "observed p m (snd c)" and rest: "list_all2 (\<lambda>c m. observed p m (snd c)) cs ms'"
    by (auto simp: list_all2_Cons1)
  from Update_observed [OF Cons.prems(1-3) ob, of "fst c"] obtain newProcs t1 where
    r: "Tracker_Update t (fst c) (snd c) None = Returned newProcs t1"
    and ni: "no_ignored t1" and ix: "index_ok t1"
    and e1: "fmlookup (Tracked t1) p = Some (Some (continue_tracked (fst c) m e))"
    by blast
  from Cons.IH [OF ni ix e1 rest] obtain t' e' where
    "Update_cycles t1 cs = Some t'" "fmlookup (Tracked t') p = Some (Some e')"
    "accum e' = sum_deltas (accum (continue_tracked (fst c) m e))
        (i_Metrics (info (continue_tracked (fst c) m e))) ms'"
    by blast
  then show ?case
    by (simp add: r ms continue_tracked_def Let_def delta_def)
qed

text \<open>
  C6. In a tracker without ignored processes, a process is tracked with the metrics
  \<open>m0\<close>, and then each of any number of consecutive cycles observes it, among any
  other positions, with the metrics of the list \<open>ms\<close> in turn. Every cycle
  returns, and the accumulator of the process is the sum of the successive deltas:
  \<open>m1 - m0\<close>, then \<open>m2 - m1\<close>, and so on, added to zero in this order.
\<close>

theorem delta_accumulation:
  assumes "no_ignored t" and "index_ok t"
    and "list_all2 (\<lambda>c m. observed p m (snd c)) cycles ms"
  shows "Option.bind
     (Update_cycles (Track g \<lparr>pi_Id = p, pi_Static = s, pi_Metrics = m0\<rparr> t) cycles)
     (\<lambda>t. tracked_accum t p) = Some (sum_deltas zeroCounts m0 ms)"
proof -
  let ?t0 = "Track g \<lparr>pi_Id = p, pi_Static = s, pi_Metrics = m0\<rparr> t"
  let ?e0 = "\<lparr>lastUpdate = zeroTime, info = \<lparr>i_Static = s, i_Metrics = m0\<rparr>,
              accum = zeroCounts, GroupName = g\<rparr>"
  have ni0: "no_ignored ?t0"
    using assms(1) by (auto simp: no_ignored_def Track_def)
  have ix0: "index_ok ?t0"
    using assms(2) by (simp add: index_ok_def Track_def)
  have e0: "fmlookup (Tracked ?t0) p = Some (Some ?e0)"
    by (simp add: Track_def)
  from cycles_accumulate [OF ni0 ix0 e0 assms(3)] show ?thesis
    by (auto simp: tracked_accum_def)
qed


text \<open>
  The counters \<open>{cpu=1, read=2, write=3}\<close>, then \<open>{cpu=2, read=3, write=4}\<close>, then
  \<open>{cpu=4, read=6, write=8}\<close> leave the accumulator \<open>{cpu=3, read=4, write=5}\<close>; the
  scans hold a new process, a position that cannot be read, and the tracked process
  after them. (The values are exact in \<open>float64\<close>.)
\<close>

theorem delta_accumulation_witness:
  "no_ignored NewTracker
   \<and> index_ok NewTracker
   \<and> list_all2 (\<lambda>c m. observed \<lparr>Pid = 1, StartTime = 1\<rparr> m (snd c))
       [(1, [found \<lparr>Pid = 2, StartTime = 2\<rparr> ''p2'' (io_metrics (Num 9) 9 9),
             seen \<lparr>Pid = 1, StartTime = 1\<rparr> (io_metrics (Num 2) 3 4),
             \<lparr>GetProcId = None, GetMetrics = None, GetStatic = None\<rparr>]),
        (2, [found \<lparr>Pid = 2, StartTime = 2\<rparr> ''p2'' (io_metrics (Num 9) 9 9),
             \<lparr>GetProcId = Some \<lparr>Pid = 3, StartTime = 3\<rparr>, GetMetrics = None, GetStatic = None\<rparr>,
             seen \<lparr>Pid = 1, StartTime = 1\<rparr> (io_metrics (Num 4) 6 8)])]
       [io_metrics (Num 2) 3 4, io_metrics (Num 4) 6 8]
   \<and> Option.bind
       (Update_cycles
          (Track ''g1''
             \<lparr>pi_Id = \<lparr>Pid = 1, StartTime = 1\<rparr>, pi_Static = \<lparr>Name = ''p1'', Cmdline = []\<rparr>,
              pi_Metrics = io_metrics (Num 1) 2 3\<rparr>
             NewTracker)
          [(1, [found \<lparr>Pid = 2, StartTime = 2\<rparr> ''p2'' (io_metrics (Num 9) 9 9),
                seen \<lparr>Pid = 1, StartTime = 1\<rparr> (io_metrics (Num 2) 3 4),
                \<lparr>GetProcId = None, GetMetrics = None, GetStatic = None\<rparr>]),
           (2, [found \<lparr>Pid = 2, StartTime = 2\<rparr> ''p2'' (io_metrics (Num 9) 9 9),
                \<lparr>GetProcId = Some \<lparr>Pid = 3, StartTime = 3\<rparr>, GetMetrics = None, GetStatic = None\<rparr>,
                seen \<lparr>Pid = 1, StartTime = 1\<rparr> (io_metrics (Num 4) 6 8)])])
       (\<lambda>t. tracked_accum t \<lparr>Pid = 1, StartTime = 1\<rparr>) =
     Some \<lparr>Cpu = Num 3, ReadBytes = 4, WriteBytes = 5\<rparr>"
proof -
  let ?p = "\<lparr>Pid = 1, StartTime = 1\<rparr>"
  let ?cycles = "[(1::nat, [found \<lparr>Pid = 2, StartTime = 2\<rparr> ''p2'' (io_metrics (Num 9) 9 9),
             seen ?p (io_metrics (Num 2) 3 4),
             \<lparr>GetProcId = None, GetMetrics = None, GetStatic = None\<rparr>]),
        (2, [found \<lparr>Pid = 2, StartTime = 2\<rparr> ''p2'' (io_metrics (Num 9) 9 9),
             \<lparr>GetProcId = Some \<lparr>Pid = 3, StartTime = 3\<rparr>, GetMetrics = None, GetStatic = None\<rparr>,
             seen ?p (io_metrics (Num 4) 6 8)])]"
  have h1: "no_ignored NewTracker"
    by (simp add: no_ignored_def NewTracker_def)
  have h2: "index_ok NewTracker"
    by (simp add: index_ok_def NewTracker_def)
  have h3: "list_all2 (\<lambda>c m. observed ?p m (snd c)) ?cycles
      [io_metrics (Num 2) 3 4, io_metrics (Num 4) 6 8]"
    by (simp add: observed_def shows_pid_def found_def seen_def)
  from delta_accumulation
    [OF h1 h2 h3, of "''g1''" "\<lparr>Name = ''p1'', Cmdline = []\<rparr>" "io_metrics (Num 1) 2 3"]
  show ?thesis
    using h1 h2 h3 by (simp add: delta_def io_metrics_def zeroCounts_def f64_sub_def)
qed

subsection \<open>Pid reuse\<close>

lemma pid_reuse_step:
  assumes "fmlookup (ProcIds (fst st)) (Pid old) = Some old"
    and "Pid new = Pid old"
    and "fmlookup (Tracked (fst st)) new = None"
    and "GetProcId p = Some new" and "GetMetrics p = Some m" and "GetStatic p = Some s"
  shows "snd (Update_step now p st) = snd st @ [\<lparr>pi_Id = new, pi_Static = s, pi_Metrics = m\<rparr>]"
    and "fmlookup (Tracked (fst (Update_step now p st))) old = None"
    and "fmlookup (Tracked (fst (Update_step now p st))) new = None"
    and "fmlookup (ProcIds (fst (Update_step now p st))) (Pid new) = Some new"
  using assms by (cases st; simp add: Update_step_def discover_def)+

text \<open>
  C5. The loop has reached a position \<open>p\<close> of the scan (after the positions \<open>pre\<close>)
  while the identity \<open>old\<close> is tracked and is the one that \<open>ProcIds\<close> gives for its
  pid; \<open>p\<close> shows the identity \<open>new\<close>, with the same pid and another start time, not
  in \<open>Tracked\<close>, and its reads succeed. Then this very round of the loop deletes
  the entry of \<open>old\<close>, makes \<open>ProcIds\<close> give \<open>new\<close> for the pid, and appends \<open>new\<close> to the
  new processes, without an entry (so without an accumulator) for it. If no process
  is ignored, \<open>Update\<close> returns, whatever follows in the scan: \<open>new\<close> is among the
  new processes and \<open>old\<close> is not tracked any more.
\<close>

theorem pid_reuse:
  assumes st: "st = fold (Update_step now) pre (t, [])"
    and tracked: "fmlookup (Tracked (fst st)) old = Some (Some tp)"
    and indexed: "fmlookup (ProcIds (fst st)) (Pid old) = Some old"
    and pid: "Pid new = Pid old"
    and start: "StartTime new \<noteq> StartTime old"
    and unknown: "fmlookup (Tracked (fst st)) new = None"
    and reads: "GetProcId p = Some new" "GetMetrics p = Some m" "GetStatic p = Some s"
    and ni: "no_ignored t"
  shows "snd (Update_step now p st) = snd st @ [\<lparr>pi_Id = new, pi_Static = s, pi_Metrics = m\<rparr>]
    \<and> fmlookup (Tracked (fst (Update_step now p st))) old = None
    \<and> fmlookup (Tracked (fst (Update_step now p st))) new = None
    \<and> fmlookup (ProcIds (fst (Update_step now p st))) (Pid new) = Some new
    \<and> (\<exists>newProcs t'. Tracker_Update t now (pre @ p # post) None = Returned newProcs t'
          \<and> \<lparr>pi_Id = new, pi_Static = s, pi_Metrics = m\<rparr> \<in> set newProcs
          \<and> fmlookup (Tracked t') old = None
          \<and> fmlookup (Tracked t') new = None)"
proof -
  let ?i = "\<lparr>pi_Id = new, pi_Static = s, pi_Metrics = m\<rparr>"
  let ?st1 = "Update_step now p st"
  let ?st2 = "fold (Update_step now) post ?st1"
  note step = pid_reuse_step [OF indexed pid unknown reads, of now]
  have loop: "fold (Update_step now) (pre @ p # post) (t, []) = ?st2"
    by (simp add: st)
  have "no_ignored (fst (fold (Update_step now) (pre @ p # post) (t, [])))"
    by (rule Update_loop_no_ignored) (simp add: ni)
  then have "no_ignored (fst ?st2)"
    by (simp only: loop)
  then obtain t' where sw: "sweep now (fst ?st2) = Some t'"
    using sweep_no_ignored by blast
  have ret: "Tracker_Update t now (pre @ p # post) None = Returned (snd ?st2) t'"
    unfolding Tracker_Update_def loop by (simp add: sw Let_def)
  have "?i \<in> set (snd ?st1)"
    by (simp add: step(1))
  then have new_in: "?i \<in> set (snd ?st2)"
    using Update_loop_newProcs [of ?st1 now post] by blast
  have old_gone: "fmlookup (Tracked t') old = None"
    by (rule sweep_unknown [OF sw]) (rule Update_loop_unknown [OF step(2)])
  have new_gone: "fmlookup (Tracked t') new = None"
    by (rule sweep_unknown [OF sw]) (rule Update_loop_unknown [OF step(3)])
  show ?thesis
    using step ret new_in old_gone new_gone by blast
qed

text \<open>
  The claim's own case: \<open>(pid=5, start=100)\<close> is found by a scan and tracked; the
  next scan shows \<open>(pid=5, start=200)\<close>.
\<close>

theorem pid_reuse_witness:
  "Tracker_Update NewTracker 1 [found_5_100] None =
     Returned
       [\<lparr>pi_Id = \<lparr>Pid = 5, StartTime = 100\<rparr>, pi_Static = \<lparr>Name = ''old'', Cmdline = []\<rparr>,
         pi_Metrics = io_metrics (Num 1) 2 3\<rparr>]
       \<lparr>Tracked = fmempty, ProcIds = fmupd 5 \<lparr>Pid = 5, StartTime = 100\<rparr> fmempty, Filter = None\<rparr>
   \<and> tracked_accum tracking_5_100 \<lparr>Pid = 5, StartTime = 100\<rparr> = Some zeroCounts
   \<and> fmlookup (ProcIds tracking_5_100) 5 = Some \<lparr>Pid = 5, StartTime = 100\<rparr>
   \<and> no_ignored tracking_5_100
   \<and> (\<exists>newProcs t'. Tracker_Update tracking_5_100 2 [found_5_200] None = Returned newProcs t'
          \<and> \<lparr>pi_Id = \<lparr>Pid = 5, StartTime = 200\<rparr>, pi_Static = \<lparr>Name = ''new'', Cmdline = []\<rparr>,
              pi_Metrics = io_metrics (Num 0) 0 0\<rparr> \<in> set newProcs
          \<and> fmlookup (Tracked t') \<lparr>Pid = 5, StartTime = 100\<rparr> = None
          \<and> fmlookup (Tracked t') \<lparr>Pid = 5, StartTime = 200\<rparr> = None)"
proof -
  have first: "Tracker_Update NewTracker 1 [found_5_100] None =
     Returned
       [\<lparr>pi_Id = \<lparr>Pid = 5, StartTime = 100\<rparr>, pi_Static = \<lparr>Name = ''old'', Cmdline = []\<rparr>,
         pi_Metrics = io_metrics (Num 1) 2 3\<rparr>]
       \<lparr>Tracked = fmempty, ProcIds = fmupd 5 \<lparr>Pid = 5, StartTime = 100\<rparr> fmempty, Filter = None\<rparr>"
    by (simp add: found_5_100_def tracker_defs)
  have h1: "fmlookup (Tracked (fst (fold (Update_step 2) [] (tracking_5_100, []))))
      \<lparr>Pid = 5, StartTime = 100\<rparr> =
      Some (Some \<lparr>lastUpdate = zeroTime,
                  info = \<lparr>i_Static = \<lparr>Name = ''old'', Cmdline = []\<rparr>,
                          i_Metrics = io_metrics (Num 1) 2 3\<rparr>,
                  accum = zeroCounts, GroupName = ''g''\<rparr>)"
    by (simp add: tracking_5_100_def Track_def)
  have h2: "fmlookup (ProcIds (fst (fold (Update_step 2) [] (tracking_5_100, []))))
      (Pid \<lparr>Pid = 5, StartTime = 100\<rparr>) = Some \<lparr>Pid = 5, StartTime = 100\<rparr>"
    by (simp add: tracking_5_100_def Track_def)
  have h3: "fmlookup (Tracked (fst (fold (Update_step 2) [] (tracking_5_100, []))))
      \<lparr>Pid = 5, StartTime = 200\<rparr> = None"
    by (simp add: tracking_5_100_def Track_def)
  have h4: "no_ignored tracking_5_100"
    by (simp add: no_ignored_def tracking_5_100_def Track_def)
  from pid_reuse [OF refl h1 h2 _ _ h3 _ _ _ h4,
      of found_5_200 "io_metrics (Num 0) 0 0" "\<lparr>Name = ''new'', Cmdline = []\<rparr>" "[]"]
  have "\<exists>newProcs t'. Tracker_Update tracking_5_100 2 [found_5_200] None = Returned newProcs t'
          \<and> \<lparr>pi_Id = \<lparr>Pid = 5, StartTime = 200\<rparr>, pi_Static = \<lparr>Name = ''new'', Cmdline = []\<rparr>,
              pi_Metrics = io_metrics (Num 0) 0 0\<rparr> \<in> set newProcs
          \<and> fmlookup (Tracked t') \<lparr>Pid = 5, StartTime = 100\<rparr> = None
          \<and> fmlookup (Tracked t') \<lparr>Pid = 5, StartTime = 200\<rparr> = None"
    by (simp add: found_5_200_def)
  then show ?thesis
    using first h1 h2 h4 by (simp add: tracked_accum_def)
qed

subsection \<open>Counters that cannot be read\<close>

lemma io_idle_step:
  "io_idle s p (fst st) \<Longrightarrow> io_reads s p ob \<Longrightarrow> io_idle s p (fst (Update_step now ob st))"
  by (auto simp: io_idle_def io_reads_def Update_step_def discover_def continue_tracked_def Let_def
      split: option.splits prod.splits if_splits)

lemma io_idle_loop:
  "io_idle s p (fst st) \<Longrightarrow> list_all (io_reads s p) obs \<Longrightarrow>
     io_idle s p (fst (fold (Update_step now) obs st))"
  by (induction obs arbitrary: st) (simp_all add: io_idle_step)

lemma io_idle_sweep: "io_idle s p t \<Longrightarrow> sweep now t = Some t' \<Longrightarrow> io_idle s p t'"
  by (auto simp: io_idle_def sweep_def split: if_splits option.splits)

lemma io_idle_Update:
  assumes "io_idle s p t" and "list_all (io_reads s p) obs"
    and "Tracker_Update t now obs None = Returned newProcs t'"
  shows "io_idle s p t'"
proof -
  have "io_idle s p (fst (fold (Update_step now) obs (t, [])))"
    using assms(1,2) by (simp add: io_idle_loop)
  moreover have "sweep now (fst (fold (Update_step now) obs (t, []))) = Some t'"
    using assms(3) by (simp add: Tracker_Update_def Let_def split: option.splits)
  ultimately show ?thesis by (rule io_idle_sweep)
qed

lemma io_idle_cycles:
  "io_idle s p t \<Longrightarrow> io_reads_always s p cycles \<Longrightarrow> Update_cycles t cycles = Some t' \<Longrightarrow>
     io_idle s p t'"
proof (induction cycles arbitrary: t)
  case Nil
  then show ?case by simp
next
  case (Cons c cs)
  from Cons.prems(3) obtain newProcs t1 where
    r: "Tracker_Update t (fst c) (snd c) None = Returned newProcs t1"
    and rest: "Update_cycles t1 cs = Some t'"
    by (auto split: update_result.splits)
  have "list_all (io_reads s p) (snd c)" and later: "io_reads_always s p cs"
    using Cons.prems(2) by (simp_all add: io_reads_always_def)
  then have "io_idle s p t1"
    using Cons.prems(1) r by (auto intro: io_idle_Update)
  then show ?case
    using Cons.IH [of t1] later rest by simp
qed

lemma io_idle_Track:
  "m_ReadBytes (pi_Metrics idinfo) = s \<Longrightarrow> m_WriteBytes (pi_Metrics idinfo) = s \<Longrightarrow>
     io_idle s (pi_Id idinfo) (Track g idinfo t)"
  by (simp add: io_idle_def Track_def zeroCounts_def)

text \<open>
  C2, as the claim states it, fails. The process \<open>(pid=1, start=1)\<close> is tracked when
  its I/O counters read 5, and the next scan reads them as the value for
  "unavailable" (-1, that is \<open>2^64 - 1\<close> in an unsigned counter). The delta added is
  not zero but \<open>2^64 - 6\<close>, and the last recorded value is overwritten with the
  sentinel.
\<close>

theorem unavailable_counter_counterexample:
  "Option.bind
     (Update_cycles
        (Track ''init''
           \<lparr>pi_Id = \<lparr>Pid = 1, StartTime = 1\<rparr>, pi_Static = \<lparr>Name = ''init'', Cmdline = []\<rparr>,
            pi_Metrics = io_metrics (Num 0) 5 5\<rparr>
           NewTracker)
        [(1, [seen \<lparr>Pid = 1, StartTime = 1\<rparr> (io_metrics (Num 0) (- 1) (- 1))])])
     (\<lambda>t. fmlookup (Tracked t) \<lparr>Pid = 1, StartTime = 1\<rparr>) =
   Some (Some
     \<lparr>lastUpdate = 1,
      info = \<lparr>i_Static = \<lparr>Name = ''init'', Cmdline = []\<rparr>,
              i_Metrics = io_metrics (Num 0) 18446744073709551615 18446744073709551615\<rparr>,
      accum = \<lparr>Cpu = Num 0, ReadBytes = 18446744073709551610,
               WriteBytes = 18446744073709551610\<rparr>,
      GroupName = ''init''\<rparr>)"
  by (simp add: tracker_defs)

text \<open>
  C2, amended. For a tracked process whose metrics are read, the loop adds to each
  counter of the accumulator the current value minus the last recorded one (modulo
  \<open>2^64\<close> for the byte counters), whatever the two values are, and records the current
  metrics as the last ones. So a process whose I/O counters read the same value \<open>s\<close>
  (the sentinel, say) when it is tracked and at every position that shows it in
  \<open>N\<close> consecutive cycles has an I/O accumulation of exactly zero for as long as it
  is tracked.
\<close>

theorem unavailable_io_accumulates_zero:
  assumes tracked: "fmlookup (Tracked (fst st)) q = Some (Some last')"
    and reads: "GetProcId ob = Some q" "GetMetrics ob = Some metrics"
    and init: "m_ReadBytes (pi_Metrics idinfo) = s" "m_WriteBytes (pi_Metrics idinfo) = s"
    and scans: "io_reads_always s (pi_Id idinfo) cycles"
    and returns: "Update_cycles (Track g idinfo t) cycles = Some t'"
    and still: "fmlookup (Tracked t') (pi_Id idinfo) = Some (Some tp)"
  shows "fmlookup (Tracked (fst (Update_step now ob st))) q =
      Some (Some (last'
        \<lparr>info := (info last')\<lparr>i_Metrics := metrics\<rparr>,
         lastUpdate := now,
         accum :=
           \<lparr>Cpu = f64_add (Cpu (accum last'))
                    (f64_sub (CpuTime metrics) (CpuTime (i_Metrics (info last')))),
            ReadBytes = ReadBytes (accum last')
                    + (m_ReadBytes metrics - m_ReadBytes (i_Metrics (info last'))),
            WriteBytes = WriteBytes (accum last')
                    + (m_WriteBytes metrics - m_WriteBytes (i_Metrics (info last')))\<rparr>\<rparr>))
    \<and> ReadBytes (accum tp) = 0 \<and> WriteBytes (accum tp) = 0"
proof -
  have step: "fmlookup (Tracked (fst (Update_step now ob st))) q =
      Some (Some (continue_tracked now metrics last'))"
    using tracked reads by (simp add: Update_step_def)
  have "io_idle s (pi_Id idinfo) t'"
    using io_idle_Track [OF init] scans returns by (rule io_idle_cycles)
  then have "ReadBytes (accum tp) = 0 \<and> WriteBytes (accum tp) = 0"
    using still by (simp add: io_idle_def)
  then show ?thesis
    using step by (simp add: continue_tracked_def Let_def)
qed

text \<open>
  Three cycles in which the I/O counters of the process read -1, as they did when it
  was tracked, while its CPU time goes from 1 to 4.
\<close>

theorem unavailable_io_accumulates_zero_witness:
  "io_reads_always (- 1) \<lparr>Pid = 1, StartTime = 1\<rparr>
     [(1, [seen \<lparr>Pid = 1, StartTime = 1\<rparr> (io_metrics (Num 2) (- 1) (- 1))]),
      (2, [seen \<lparr>Pid = 1, StartTime = 1\<rparr> (io_metrics (Num 3) (- 1) (- 1))]),
      (3, [seen \<lparr>Pid = 1, StartTime = 1\<rparr> (io_metrics (Num 4) (- 1) (- 1))])]
   \<and> Option.bind
       (Update_cycles
          (Track ''init''
             \<lparr>pi_Id = \<lparr>Pid = 1, StartTime = 1\<rparr>, pi_Static = \<lparr>Name = ''init'', Cmdline = []\<rparr>,
              pi_Metrics = io_metrics (Num 1) (- 1) (- 1)\<rparr>
             NewTracker)
          [(1, [seen \<lparr>Pid = 1, StartTime = 1\<rparr> (io_metrics (Num 2) (- 1) (- 1))]),
           (2, [seen \<lparr>Pid = 1, StartTime = 1\<rparr> (io_metrics (Num 3) (- 1) (- 1))]),
           (3, [seen \<lparr>Pid = 1, StartTime = 1\<rparr> (io_metrics (Num 4) (- 1) (- 1))])])
       (\<lambda>t. tracked_accum t \<lparr>Pid = 1, StartTime = 1\<rparr>) =
     Some \<lparr>Cpu = Num 3, ReadBytes = 0, WriteBytes = 0\<rparr>"
proof -
  let ?p = "\<lparr>Pid = 1, StartTime = 1\<rparr>"
  let ?cycles = "[(1::nat, [seen ?p (io_metrics (Num 2) (- 1) (- 1))]),
      (2, [seen ?p (io_metrics (Num 3) (- 1) (- 1))]),
      (3, [seen ?p (io_metrics (Num 4) (- 1) (- 1))])]"
  let ?i = "\<lparr>pi_Id = ?p, pi_Static = \<lparr>Name = ''init'', Cmdline = []\<rparr>,
              pi_Metrics = io_metrics (Num 1) (- 1) (- 1)\<rparr>"
  let ?tp = "\<lparr>lastUpdate = 3,
      info = \<lparr>i_Static = \<lparr>Name = ''init'', Cmdline = []\<rparr>,
              i_Metrics = io_metrics (Num 4) (- 1) (- 1)\<rparr>,
      accum = \<lparr>Cpu = Num 3, ReadBytes = 0, WriteBytes = 0\<rparr>, GroupName = ''init''\<rparr>"
  let ?t' = "\<lparr>Tracked = fmupd ?p (Some ?tp) fmempty, ProcIds = fmempty, Filter = None\<rparr>"
  have scans: "io_reads_always (- 1) (pi_Id ?i) ?cycles"
    by (simp add: io_reads_always_def io_reads_def seen_def io_metrics_def)
  have run: "Update_cycles (Track ''init'' ?i NewTracker) ?cycles = Some ?t'"
    by (simp add: tracker_defs fmap_ext)
  have tracked: "fmlookup (Tracked (fst (Track ''init'' ?i NewTracker, []))) ?p
      = Some (Some \<lparr>lastUpdate = zeroTime,
            info = \<lparr>i_Static = pi_Static ?i, i_Metrics = pi_Metrics ?i\<rparr>,
            accum = zeroCounts, GroupName = ''init''\<rparr>)"
    by (simp add: Track_def)
  have still: "fmlookup (Tracked ?t') (pi_Id ?i) = Some (Some ?tp)"
    by simp
  from unavailable_io_accumulates_zero
    [OF tracked _ _ _ _ scans run still,
      of "seen ?p (io_metrics (Num 2) (- 1) (- 1))" "io_metrics (Num 2) (- 1) (- 1)" 1]
  show ?thesis
    using scans run by (simp add: seen_def io_metrics_def tracked_accum_def)
qed

section \<open>Properties of the grouper\<close>

lemmas grouper_defs =
  Grouper_Update_def NewGrouper_def report_all_def report_failure_def report_def emitted_def
  emitted_ratio_def add_past_def store_accum_def add_accum_def aggregate_def add_update_def
  groupadd_def Counts_Add_def zeroGroup_def zeroCounts_def zeroTime_def Let_def members_def
  live_counts_def group_of_def float64_of_int64_def float64_of_uint64_def

subsection \<open>The three loops, name by name\<close>

lemma fold_add_update:
  "fold add_update tracked groups gname =
     (if members gname tracked = [] then groups gname
      else Some (fold (\<lambda>u grp. groupadd grp u) (members gname tracked)
                  (case groups gname of None \<Rightarrow> zeroGroup | Some grp \<Rightarrow> grp)))"
proof (induction tracked arbitrary: groups)
  case Nil
  show ?case by (simp add: members_def)
next
  case (Cons u us)
  have step: "fold add_update (u # us) groups gname = fold add_update us (add_update u groups) gname"
    by simp
  have look: "add_update u groups gname =
      (if u_GroupName u = gname
       then Some (groupadd (case groups gname of None \<Rightarrow> zeroGroup | Some grp \<Rightarrow> grp) u)
       else groups gname)"
    by (auto simp: add_update_def)
  show ?case
    unfolding step Cons.IH [of "add_update u groups"] look
    by (simp add: members_def)
qed

lemma aggregate_lookup:
  "aggregate tracked gname =
     (if members gname tracked = [] then None else Some (group_of (members gname tracked)))"
  by (simp add: aggregate_def fold_add_update group_of_def)

lemma g_Counts_groupadd: "g_Counts (groupadd grp u) = Counts_Add (g_Counts grp) (Latest u)"
  by (simp add: groupadd_def Let_def)

lemma g_Counts_fold_groupadd:
  "g_Counts (fold (\<lambda>u grp. groupadd grp u) ms grp) =
     fold (\<lambda>u c. Counts_Add c (Latest u)) ms (g_Counts grp)"
  by (induction ms arbitrary: grp) (simp_all add: g_Counts_groupadd)

lemma g_Counts_group_of: "g_Counts (group_of ms) = live_counts ms"
  by (simp add: group_of_def live_counts_def g_Counts_fold_groupadd zeroGroup_def)

lemma cycle_groups_lookup:
  "cycle_groups acc tracked gname =
     (if members gname tracked = []
      then (case acc gname of
              None \<Rightarrow> None
            | Some gcounts \<Rightarrow> Some (zeroGroup\<lparr>g_Counts := gcounts\<rparr>))
      else Some ((group_of (members gname tracked))
             \<lparr>g_Counts := (case acc gname of
                 None \<Rightarrow> live_counts (members gname tracked)
               | Some old \<Rightarrow> Counts_Add (live_counts (members gname tracked)) old)\<rparr>))"
  by (simp add: cycle_groups_def add_past_def store_accum_def add_accum_def aggregate_lookup
      g_Counts_group_of split: option.splits)

lemma store_accum_lookup:
  "store_accum acc (add_accum acc (aggregate tracked)) gname =
     map_option g_Counts (cycle_groups acc tracked gname)"
  by (simp add: cycle_groups_def add_past_def store_accum_def add_accum_def split: option.splits)

lemma Grouper_Update_cases:
  assumes "Grouper_Update upd g iter = ((cerrs, Some groups, err), g')"
  obtains tracked tr' where "upd (tracker g) iter = ((cerrs, tracked, None), tr')"
    and "groups = cycle_groups (groupAccum g) tracked"
    and "groupAccum g' = store_accum (groupAccum g) (add_accum (groupAccum g) (aggregate tracked))"
  using assms
  by (auto simp: Grouper_Update_def Let_def cycle_groups_def split: prod.splits option.splits)

lemma Grouper_Update_shape:
  "Grouper_Update report_all g iter =
     (((), Some (the (fst (snd (fst (Grouper_Update report_all g iter))))), None),
      snd (Grouper_Update report_all g iter))"
  by (simp add: Grouper_Update_def report_all_def Let_def)

lemma consecutive_counts:
  assumes first: "Grouper_Update upd g it1 = ((ce1, Some groups1, e1), g1)"
    and second: "Grouper_Update upd g1 it2 = ((ce2, Some groups2, e2), g2)"
    and reports: "upd (tracker g1) it2 = ((ce, tracked, e), tr)"
  shows "map_option g_Counts (groups2 gname) =
     (case groups1 gname of
        None \<Rightarrow>
          (if members gname tracked = [] then None
           else Some (live_counts (members gname tracked)))
      | Some grp1 \<Rightarrow>
          Some (if members gname tracked = [] then g_Counts grp1
                else Counts_Add (live_counts (members gname tracked)) (g_Counts grp1)))"
proof -
  from first obtain tracked1 tr1 where
    g1: "groups1 = cycle_groups (groupAccum g) tracked1"
    and acc1: "groupAccum g1 =
      store_accum (groupAccum g) (add_accum (groupAccum g) (aggregate tracked1))"
    by (rule Grouper_Update_cases)
  from second obtain tracked2 tr2 where
    u2: "upd (tracker g1) it2 = ((ce2, tracked2, None), tr2)"
    and g2: "groups2 = cycle_groups (groupAccum g1) tracked2"
    by (rule Grouper_Update_cases)
  have same: "tracked2 = tracked"
    using u2 reports by simp
  have acc: "groupAccum g1 gname = map_option g_Counts (groups1 gname)"
    by (simp add: acc1 g1 store_accum_lookup)
  show ?thesis
    by (simp add: g2 same cycle_groups_lookup acc split: option.splits)
qed

subsection \<open>A scan that cannot be closed\<close>

text \<open>
  C9. When \<open>Close\<close> fails, \<open>Tracker.Update\<close> returns the error and no list of new
  processes, whatever the tracker and the scan. When the tracker's \<open>Update\<close> returns
  an error to \<open>Grouper.Update\<close>, this returns the error with the nil map, and the
  accumulated counts of the groups are the ones before the call.
\<close>

theorem close_failure_is_fatal:
  assumes "upd (tracker g) iter = ((cerrs, tracked, Some e), tr')"
  shows "Tracker_Update t now procs (Some err) =
      Failed (''Error reading procs: '' @ err) (fst (fold (Update_step now) procs (t, [])))
    \<and> fst (Grouper_Update upd g iter) = (cerrs, None, Some e)
    \<and> groupAccum (snd (Grouper_Update upd g iter)) = groupAccum g"
  using assms by (simp add: Tracker_Update_def Grouper_Update_def)

theorem close_failure_is_fatal_witness:
  "report_failure (tracker (snd (Grouper_Update report_all (NewGrouper ())
       [report ''g'' \<lparr>Cpu = Num 1, ReadBytes = 10, WriteBytes = 100\<rparr> 3 1024])))
     [report ''g'' \<lparr>Cpu = Num 2, ReadBytes = 20, WriteBytes = 200\<rparr> 3 1024]
     = (((), [], Some ''Error reading procs: closed''), ())
   \<and> Tracker_Update tracking_5_100 2 [found_5_200] (Some ''closed'') =
       Failed ''Error reading procs: closed''
         (fst (fold (Update_step 2) [found_5_200] (tracking_5_100, [])))
   \<and> fst (Grouper_Update report_failure
        (snd (Grouper_Update report_all (NewGrouper ())
           [report ''g'' \<lparr>Cpu = Num 1, ReadBytes = 10, WriteBytes = 100\<rparr> 3 1024]))
        [report ''g'' \<lparr>Cpu = Num 2, ReadBytes = 20, WriteBytes = 200\<rparr> 3 1024])
     = ((), None, Some ''Error reading procs: closed'')
   \<and> groupAccum (snd (Grouper_Update report_failure
        (snd (Grouper_Update report_all (NewGrouper ())
           [report ''g'' \<lparr>Cpu = Num 1, ReadBytes = 10, WriteBytes = 100\<rparr> 3 1024]))
        [report ''g'' \<lparr>Cpu = Num 2, ReadBytes = 20, WriteBytes = 200\<rparr> 3 1024])) ''g''
     = Some \<lparr>Cpu = Num 1, ReadBytes = 10, WriteBytes = 100\<rparr>"
proof -
  let ?g1 = "snd (Grouper_Update report_all (NewGrouper ())
       [report ''g'' \<lparr>Cpu = Num 1, ReadBytes = 10, WriteBytes = 100\<rparr> 3 1024])"
  let ?it = "[report ''g'' \<lparr>Cpu = Num 2, ReadBytes = 20, WriteBytes = 200\<rparr> 3 1024]"
  have h: "report_failure (tracker ?g1) ?it = (((), [], Some ''Error reading procs: closed''), ())"
    by (simp add: report_failure_def)
  have before: "groupAccum ?g1 ''g'' = Some \<lparr>Cpu = Num 1, ReadBytes = 10, WriteBytes = 100\<rparr>"
    by (simp add: grouper_defs)
  from close_failure_is_fatal
    [of report_failure ?g1 ?it "()" "[]" "''Error reading procs: closed''" "()"
      tracking_5_100 2 "[found_5_200]" "''closed''", OF h]
  show ?thesis
    using h before by simp
qed

subsection \<open>The worst descriptor ratio\<close>

lemma ratio_grows: "f64_le (Num 0) w \<Longrightarrow> f64_less w r \<Longrightarrow> f64_le (Num 0) r"
  by (cases w; cases r) (auto simp: f64_le_def)

lemma ratio_nonneg_groupadd:
  "f64_le (Num 0) (WorstFDratio grp) \<Longrightarrow> f64_le (Num 0) (WorstFDratio (groupadd grp u))"
  by (auto simp: groupadd_def Let_def intro: ratio_grows)

lemma ratio_sentinel:
  assumes "f64_le (Num 0) (WorstFDratio grp)" and "Open (u_Filedesc u) = - 1"
  shows "WorstFDratio (groupadd grp u) = WorstFDratio grp"
proof -
  define l where "l = real (unat (Limit (u_Filedesc u)))"
  have "0 \<le> l"
    unfolding l_def by (rule of_nat_0_le_iff)
  then have pos: "0 \<le> 1 / l"
    by simp
  have "\<not> f64_less (WorstFDratio grp) (f64_div (Num (- 1)) (Num l))"
  proof (cases "WorstFDratio grp")
    case (Num w)
    then have "0 \<le> w"
      using assms(1) by (simp add: f64_le_def)
    with pos have "\<not> w < - (1 / l)"
      by linarith
    with Num show ?thesis by simp
  qed (use assms(1) in \<open>simp_all add: f64_le_def\<close>)
  then show ?thesis
    using assms(2)
    by (simp add: groupadd_def Let_def float64_of_int64_def float64_of_uint64_def l_def)
qed

lemma ratio_groupadd_cong:
  "WorstFDratio grp' = WorstFDratio grp \<Longrightarrow>
     WorstFDratio (groupadd grp' u) = WorstFDratio (groupadd grp u)"
  by (simp add: groupadd_def Let_def)

lemma ratio_fold:
  "f64_le (Num 0) (WorstFDratio grp) \<Longrightarrow> WorstFDratio grp' = WorstFDratio grp \<Longrightarrow>
     f64_le (Num 0) (WorstFDratio (fold (\<lambda>u grp. groupadd grp u) ms grp))
     \<and> WorstFDratio
         (fold (\<lambda>u grp. groupadd grp u) (filter (\<lambda>u. Open (u_Filedesc u) \<noteq> - 1) ms) grp')
         = WorstFDratio (fold (\<lambda>u grp. groupadd grp u) ms grp)"
proof (induction ms arbitrary: grp grp')
  case Nil
  then show ?case by simp
next
  case (Cons u us)
  have nn: "f64_le (Num 0) (WorstFDratio (groupadd grp u))"
    using Cons.prems(1) by (rule ratio_nonneg_groupadd)
  show ?case
  proof (cases "Open (u_Filedesc u) = - 1")
    case True
    have "WorstFDratio grp' = WorstFDratio (groupadd grp u)"
      using Cons.prems ratio_sentinel [OF Cons.prems(1) True] by simp
    with Cons.IH [OF nn this] True show ?thesis by simp
  next
    case False
    have "WorstFDratio (groupadd grp' u) = WorstFDratio (groupadd grp u)"
      using Cons.prems(2) by (rule ratio_groupadd_cong)
    with Cons.IH [OF nn this] False show ?thesis by simp
  qed
qed

lemma ratio_group_of:
  "f64_le (Num 0) (WorstFDratio (group_of ms))
   \<and> WorstFDratio (group_of (filter (\<lambda>u. Open (u_Filedesc u) \<noteq> - 1) ms))
       = WorstFDratio (group_of ms)"
  unfolding group_of_def by (rule ratio_fold) (simp_all add: zeroGroup_def f64_le_def)

lemma cycle_groups_ratio:
  "cycle_groups acc tracked gname = Some grp \<Longrightarrow>
     WorstFDratio grp = WorstFDratio (group_of (members gname tracked))"
  by (auto simp: cycle_groups_lookup group_of_def zeroGroup_def split: if_splits option.splits)

text \<open>
  C10. In every group that a cycle of \<open>Grouper.Update\<close> emits, the worst descriptor
  ratio is a number that is not negative (or plus infinity, for a limit of zero); and
  it is the worst ratio of the members whose count of open descriptors is not -1
  alone: a member with the count -1 has the ratio \<open>-1 / limit\<close>, negative or minus
  infinity, which is never above the running maximum.
\<close>

theorem worst_ratio:
  assumes ok: "Grouper_Update upd g iter = ((cerrs, Some groups, err), g')"
    and reports: "upd (tracker g) iter = ((ce, tracked, e), tr)"
    and emitted: "groups gname = Some grp"
  shows "f64_le (Num 0) (WorstFDratio grp)
    \<and> WorstFDratio grp =
        WorstFDratio
          (group_of (filter (\<lambda>u. Open (u_Filedesc u) \<noteq> - 1) (members gname tracked)))"
proof -
  from ok obtain tracked' tr' where
    u: "upd (tracker g) iter = ((cerrs, tracked', None), tr')"
    and g: "groups = cycle_groups (groupAccum g) tracked'"
    by (rule Grouper_Update_cases)
  have "tracked' = tracked"
    using u reports by simp
  then have "WorstFDratio grp = WorstFDratio (group_of (members gname tracked))"
    using emitted g by (simp add: cycle_groups_ratio)
  then show ?thesis
    using ratio_group_of [of "members gname tracked"] by simp
qed

text \<open>
  A group of three members: 3 descriptors of 1024, an unknown count with the limit
  1024, and an unknown count with the limit 0.
\<close>

theorem worst_ratio_witness:
  "emitted_ratio
     (Grouper_Update report_all (NewGrouper ())
        [report ''g'' zeroCounts 3 1024, report ''g'' zeroCounts (- 1) 1024,
         report ''g'' zeroCounts (- 1) 0])
     ''g''
   = Some (Num (3 / 1024))
   \<and> f64_le (Num 0) (Num (3 / 1024))
   \<and> WorstFDratio (group_of [report ''g'' zeroCounts 3 1024]) = Num (3 / 1024)"
proof -
  let ?tracked = "[report ''g'' zeroCounts 3 1024, report ''g'' zeroCounts (- 1) 1024,
         report ''g'' zeroCounts (- 1) 0]"
  let ?r = "Grouper_Update report_all (NewGrouper ()) ?tracked"
  let ?groups = "the (fst (snd (fst ?r)))"
  have reports: "report_all (tracker (NewGrouper ())) ?tracked = (((), ?tracked, None), ())"
    by (simp add: report_all_def)
  have is_some: "?groups ''g'' \<noteq> None"
    by (simp add: grouper_defs)
  then have emitted: "?groups ''g'' = Some (the (?groups ''g''))"
    by simp
  have ratio: "emitted_ratio ?r ''g'' = Some (WorstFDratio (the (?groups ''g'')))"
    using is_some by (auto simp: emitted_ratio_def Grouper_Update_def report_all_def Let_def)
  have only: "filter (\<lambda>u. Open (u_Filedesc u) \<noteq> - 1) (members ''g'' ?tracked)
      = [report ''g'' zeroCounts 3 1024]"
    by (simp add: members_def report_def)
  have worst: "WorstFDratio (group_of [report ''g'' zeroCounts 3 1024]) = Num (3 / 1024)"
    by (simp add: grouper_defs)
  from worst_ratio
    [of report_all "NewGrouper ()" ?tracked "()" ?groups None "snd ?r" "()" ?tracked None "()"
      "''g''" "the (?groups ''g'')",
      OF Grouper_Update_shape reports emitted]
  show ?thesis
    using ratio worst by (simp add: only f64_le_def)
qed

subsection \<open>The counters of a group from one cycle to the next\<close>

lemma emitted_report_all:
  "emitted (Grouper_Update report_all g iter) gname =
     map_option g_Counts (the (fst (snd (fst (Grouper_Update report_all g iter)))) gname)"
  by (simp add: emitted_def Grouper_Update_def report_all_def Let_def)

















subsection \<open>Counters that never decrease\<close>

lemma nonneg_num_add: "nonneg_num a \<Longrightarrow> nonneg_num b \<Longrightarrow> nonneg_num (f64_add a b)"
  by (cases a; cases b) simp_all

lemma unat_add64:
  fixes a b :: uint64
  assumes "unat a + unat b < 2 ^ 64"
  shows "unat (a + b) = unat a + unat b"
proof -
  have "unat a + unat b < 2 ^ LENGTH(64)"
    using assms by simp
  then show ?thesis
    by (rule unat_add_lem [THEN iffD1])
qed

lemma cpu_fold:
  "nonneg_num (Cpu c0) \<Longrightarrow> list_all (\<lambda>u. nonneg_num (Cpu (Latest u))) ms \<Longrightarrow>
     nonneg_num (Cpu (fold (\<lambda>u c. Counts_Add c (Latest u)) ms c0))"
  by (induction ms arbitrary: c0) (simp_all add: Counts_Add_def nonneg_num_add)

lemma read_fold:
  "unat (ReadBytes c0) + sum_list (map (\<lambda>u. unat (ReadBytes (Latest u))) ms) < 2 ^ 64 \<Longrightarrow>
     unat (ReadBytes (fold (\<lambda>u c. Counts_Add c (Latest u)) ms c0)) =
       unat (ReadBytes c0) + sum_list (map (\<lambda>u. unat (ReadBytes (Latest u))) ms)"
proof (induction ms arbitrary: c0)
  case Nil
  show ?case by simp
next
  case (Cons u us)
  have "unat (ReadBytes c0) + unat (ReadBytes (Latest u)) < 2 ^ 64"
    using Cons.prems by simp
  then have one: "unat (ReadBytes (Counts_Add c0 (Latest u))) =
      unat (ReadBytes c0) + unat (ReadBytes (Latest u))"
    by (simp add: Counts_Add_def unat_add64)
  show ?case
    using Cons.IH [of "Counts_Add c0 (Latest u)"] Cons.prems by (simp add: one)
qed

lemma write_fold:
  "unat (WriteBytes c0) + sum_list (map (\<lambda>u. unat (WriteBytes (Latest u))) ms) < 2 ^ 64 \<Longrightarrow>
     unat (WriteBytes (fold (\<lambda>u c. Counts_Add c (Latest u)) ms c0)) =
       unat (WriteBytes c0) + sum_list (map (\<lambda>u. unat (WriteBytes (Latest u))) ms)"
proof (induction ms arbitrary: c0)
  case Nil
  show ?case by simp
next
  case (Cons u us)
  have "unat (WriteBytes c0) + unat (WriteBytes (Latest u)) < 2 ^ 64"
    using Cons.prems by simp
  then have one: "unat (WriteBytes (Counts_Add c0 (Latest u))) =
      unat (WriteBytes c0) + unat (WriteBytes (Latest u))"
    by (simp add: Counts_Add_def unat_add64)
  show ?case
    using Cons.IH [of "Counts_Add c0 (Latest u)"] Cons.prems by (simp add: one)
qed

lemma word_le_add_left:
  fixes a b :: uint64
  assumes "unat a = n" and "unat b + n < 2 ^ 64"
  shows "b \<le> a + b"
proof -
  have "unat a + unat b < 2 ^ 64"
    using assms by simp
  then have "unat (a + b) = unat a + unat b"
    by (rule unat_add64)
  then show ?thesis
    by (simp add: word_le_nat_alt)
qed

lemma f64_add_not_less: "nonneg_num a \<Longrightarrow> \<not> f64_less (f64_add a x) x"
  by (cases a; cases x) simp_all

lemma f64_not_less_self: "\<not> f64_less x x"
  by (cases x) simp_all

lemma Counts_le_grow:
  assumes "no_wrap old ms" and "cpu_nonneg ms"
  shows "Counts_le old (Counts_Add (live_counts ms) old)"
proof -
  have r: "unat (ReadBytes (live_counts ms)) = sum_list (map (\<lambda>u. unat (ReadBytes (Latest u))) ms)"
    unfolding live_counts_def using assms(1)
    by (subst read_fold) (simp_all add: no_wrap_def zeroCounts_def)
  have w: "unat (WriteBytes (live_counts ms)) = sum_list (map (\<lambda>u. unat (WriteBytes (Latest u))) ms)"
    unfolding live_counts_def using assms(1)
    by (subst write_fold) (simp_all add: no_wrap_def zeroCounts_def)
  have c: "nonneg_num (Cpu (live_counts ms))"
    unfolding live_counts_def using assms(2)
    by (intro cpu_fold) (simp_all add: cpu_nonneg_def zeroCounts_def)
  have "ReadBytes old \<le> ReadBytes (live_counts ms) + ReadBytes old"
  proof (rule word_le_add_left [OF r])
    show "unat (ReadBytes old) + sum_list (map (\<lambda>u. unat (ReadBytes (Latest u))) ms) < 2 ^ 64"
      using assms(1) by (simp add: no_wrap_def)
  qed
  moreover have "WriteBytes old \<le> WriteBytes (live_counts ms) + WriteBytes old"
  proof (rule word_le_add_left [OF w])
    show "unat (WriteBytes old) + sum_list (map (\<lambda>u. unat (WriteBytes (Latest u))) ms) < 2 ^ 64"
      using assms(1) by (simp add: no_wrap_def)
  qed
  moreover have "\<not> f64_less (f64_add (Cpu (live_counts ms)) (Cpu old)) (Cpu old)"
    using c by (rule f64_add_not_less)
  ultimately show ?thesis
    by (simp add: Counts_le_def Counts_Add_def)
qed

lemma Counts_le_refl: "Counts_le c c"
  by (simp add: Counts_le_def f64_not_less_self)

text \<open>
  C4, as the claim states it, fails. In the first cycle the member of a group is
  reported with \<open>{cpu=5, read=2^64-1}\<close>, in the second with \<open>{cpu=-1, read=1}\<close>: the
  byte counter of the group wraps around to 0, and its CPU counter goes from 5 down
  to 4.
\<close>

theorem group_counts_decrease_counterexample:
  "emitted
     (Grouper_Update report_all (NewGrouper ())
        [report ''g'' \<lparr>Cpu = Num 5, ReadBytes = - 1, WriteBytes = 0\<rparr> 3 1024])
     ''g''
   = Some \<lparr>Cpu = Num 5, ReadBytes = 18446744073709551615, WriteBytes = 0\<rparr>
   \<and> emitted
       (Grouper_Update report_all
          (snd (Grouper_Update report_all (NewGrouper ())
             [report ''g'' \<lparr>Cpu = Num 5, ReadBytes = - 1, WriteBytes = 0\<rparr> 3 1024]))
          [report ''g'' \<lparr>Cpu = Num (- 1), ReadBytes = 1, WriteBytes = 0\<rparr> 3 1024])
       ''g''
     = Some \<lparr>Cpu = Num 4, ReadBytes = 0, WriteBytes = 0\<rparr>
   \<and> f64_less (Num 4) (Num 5)
   \<and> (0 :: uint64) < 18446744073709551615
   \<and> \<not> Counts_le \<lparr>Cpu = Num 5, ReadBytes = 18446744073709551615, WriteBytes = 0\<rparr>
           \<lparr>Cpu = Num 4, ReadBytes = 0, WriteBytes = 0\<rparr>"
  by (simp add: grouper_defs Counts_le_def)

text \<open>
  C4, amended. For every group name and every two consecutive cycles of
  \<open>Grouper.Update\<close> without error, whatever members join, stay or leave: a group
  emitted in the first cycle is emitted in the second, and none of its counters is
  below its value of the first cycle, provided that adding the byte counts reported
  for its members in the second cycle does not pass \<open>2^64 - 1\<close> and that the CPU
  counts reported for them are numbers that are not negative.
\<close>

theorem group_counts_monotone:
  assumes first: "Grouper_Update upd g it1 = ((ce1, Some groups1, e1), g1)"
    and second: "Grouper_Update upd g1 it2 = ((ce2, Some groups2, e2), g2)"
    and reports: "upd (tracker g1) it2 = ((ce, tracked, e), tr)"
    and emitted: "groups1 gname = Some grp1"
    and nowrap: "no_wrap (g_Counts grp1) (members gname tracked)"
    and cpu: "cpu_nonneg (members gname tracked)"
  shows "\<exists>grp2. groups2 gname = Some grp2 \<and> Counts_le (g_Counts grp1) (g_Counts grp2)"
proof -
  have "map_option g_Counts (groups2 gname) =
      Some (if members gname tracked = [] then g_Counts grp1
            else Counts_Add (live_counts (members gname tracked)) (g_Counts grp1))"
    using consecutive_counts [OF first second reports, of gname] emitted by simp
  then obtain grp2 where g2: "groups2 gname = Some grp2"
    and c2: "g_Counts grp2 = (if members gname tracked = [] then g_Counts grp1
            else Counts_Add (live_counts (members gname tracked)) (g_Counts grp1))"
    by auto
  have "Counts_le (g_Counts grp1) (g_Counts grp2)"
    using c2 Counts_le_grow [OF nowrap cpu] Counts_le_refl [of "g_Counts grp1"]
    by simp
  with g2 show ?thesis by blast
qed

text \<open>
  A group with the member A in one cycle, and with A and a new member C in the
  next.
\<close>

theorem group_counts_monotone_witness:
  "emitted
     (Grouper_Update report_all (NewGrouper ())
        [report ''g'' \<lparr>Cpu = Num 1, ReadBytes = 10, WriteBytes = 100\<rparr> 3 1024])
     ''g''
   = Some \<lparr>Cpu = Num 1, ReadBytes = 10, WriteBytes = 100\<rparr>
   \<and> no_wrap \<lparr>Cpu = Num 1, ReadBytes = 10, WriteBytes = 100\<rparr>
       [report ''g'' \<lparr>Cpu = Num 1, ReadBytes = 10, WriteBytes = 100\<rparr> 3 1024,
        report ''g'' \<lparr>Cpu = Num 4, ReadBytes = 40, WriteBytes = 400\<rparr> 3 1024]
   \<and> cpu_nonneg
       [report ''g'' \<lparr>Cpu = Num 1, ReadBytes = 10, WriteBytes = 100\<rparr> 3 1024,
        report ''g'' \<lparr>Cpu = Num 4, ReadBytes = 40, WriteBytes = 400\<rparr> 3 1024]
   \<and> (\<exists>c2. emitted
         (Grouper_Update report_all
            (snd (Grouper_Update report_all (NewGrouper ())
               [report ''g'' \<lparr>Cpu = Num 1, ReadBytes = 10, WriteBytes = 100\<rparr> 3 1024]))
            [report ''g'' \<lparr>Cpu = Num 1, ReadBytes = 10, WriteBytes = 100\<rparr> 3 1024,
             report ''h'' \<lparr>Cpu = Num 7, ReadBytes = 70, WriteBytes = 700\<rparr> 3 1024,
             report ''g'' \<lparr>Cpu = Num 4, ReadBytes = 40, WriteBytes = 400\<rparr> 3 1024])
         ''g'' = Some c2
       \<and> Counts_le \<lparr>Cpu = Num 1, ReadBytes = 10, WriteBytes = 100\<rparr> c2)"
proof -
  let ?A = "report ''g'' \<lparr>Cpu = Num 1, ReadBytes = 10, WriteBytes = 100\<rparr> 3 1024"
  let ?C = "report ''g'' \<lparr>Cpu = Num 4, ReadBytes = 40, WriteBytes = 400\<rparr> 3 1024"
  let ?H = "report ''h'' \<lparr>Cpu = Num 7, ReadBytes = 70, WriteBytes = 700\<rparr> 3 1024"
  let ?c1 = "\<lparr>Cpu = Num 1, ReadBytes = 10, WriteBytes = 100\<rparr>"
  let ?r1 = "Grouper_Update report_all (NewGrouper ()) [?A]"
  let ?r2 = "Grouper_Update report_all (snd ?r1) [?A, ?H, ?C]"
  let ?groups1 = "the (fst (snd (fst ?r1)))"
  have one: "emitted ?r1 ''g'' = Some ?c1"
    by (simp add: grouper_defs)
  have is_some: "?groups1 ''g'' \<noteq> None"
    by (simp add: grouper_defs)
  then have emitted1: "?groups1 ''g'' = Some (the (?groups1 ''g''))"
    by simp
  have c1: "g_Counts (the (?groups1 ''g'')) = ?c1"
    using one is_some by (auto simp: emitted_report_all)
  have ms: "members ''g'' [?A, ?H, ?C] = [?A, ?C]"
    by (simp add: members_def report_def)
  have nowrap: "no_wrap ?c1 [?A, ?C]"
    by (simp add: no_wrap_def report_def)
  have cpu: "cpu_nonneg [?A, ?C]"
    by (simp add: cpu_nonneg_def report_def)
  have reports: "report_all (tracker (snd ?r1)) [?A, ?H, ?C] = (((), [?A, ?H, ?C], None), ())"
    by (simp add: report_all_def)
  from group_counts_monotone
    [where upd = report_all and gname = "''g''",
      OF Grouper_Update_shape Grouper_Update_shape reports emitted1]
    nowrap cpu
  have "\<exists>grp2. the (fst (snd (fst ?r2))) ''g'' = Some grp2 \<and> Counts_le ?c1 (g_Counts grp2)"
    by (simp only: c1 ms)
  then have "\<exists>c2. emitted ?r2 ''g'' = Some c2 \<and> Counts_le ?c1 c2"
    by (auto simp: emitted_report_all)
  then show ?thesis
    using one nowrap cpu by simp
qed

end
